theory Spec2Isabelle
  imports
    Complex_Main
    "HOL-Library.Char_ord"
    "HOL-Library.List_Lexorder"
    "HOL-Library.Product_Lexorder"
    "HOL-Library.Multiset"
begin

section \<open>The traffic-incident processor (Tarea 2, processor.py)\<close>

text \<open>
  A shallow embedding of \<^verbatim>\<open>TrafficDataProcessor\<close>: the validator
  \<^verbatim>\<open>is_valid_incident\<close>, the deduplicator \<^verbatim>\<open>remove_duplicates\<close> with
  \<^verbatim>\<open>are_incidents_duplicate\<close>, the normaliser \<^verbatim>\<open>homogenize_incidents\<close>, the
  store update of \<^verbatim>\<open>filter_and_clean_data\<close>, the CSV export, the cache writes and the
  orchestration in \<^verbatim>\<open>process_data_pipeline\<close>.

  Conventions of the model.
  \<^item> An incident is a Python dict. Each key is either absent (\<open>Missing\<close>), bound to
    \<^verbatim>\<open>None\<close> (\<open>PyNone\<close>, a SQL NULL) or bound to a value of the column's type.
  \<^item> Text is a list of 8-bit characters read as the code points 0..255 (Latin-1), which
    covers every literal of the source, the accented comuna names included.
  \<^item> A Python float is a binary64 number and is modelled by its value, a real number. The
    results of the float operations of the source (the subtractions of the duplicate test,
    \<^verbatim>\<open>round\<close>, the literal \<^verbatim>\<open>0.001\<close>) are rounded to binary64 by \<open>fl\<close>. The bounds of
    the validator's box are compared as the decimals written in the source; the binary64
    numbers nearest to them differ from them by less than \<open>3 \<times> 10\<^sup>-\<^sup>1\<^sup>5\<close>.
  \<^item> A \<^verbatim>\<open>datetime\<close> is its wall-clock reading in microseconds together with its UTC
    offset (absent for a naive datetime); a \<^verbatim>\<open>timedelta\<close> is an integer number of
    microseconds.
  \<^item> An exception is a value \<open>Inl e\<close> of a sum type.
\<close>

subsection \<open>Python values\<close>

datatype 'a field = Missing | PyNone | Val 'a

datatype py_error = KeyError | TypeError | AttributeError | ValueError

record datetime =
  wall :: int
  utcoffset :: "int option"

datatype pytime = TStr string | TDatetime datetime

record incident =
  incident_id :: "string field"
  incident_type :: "string field"
  description :: "string field"
  latitude :: "real field"
  longitude :: "real field"
  street :: "string field"
  city :: "string field"
  comuna :: "string field"
  severity :: "int field"
  timestamp :: "pytime field"
  source :: "string field"

text \<open>\<^verbatim>\<open>d.get(k, default)\<close>: the default replaces an absent key only; a key bound to
  \<^verbatim>\<open>None\<close> yields \<^verbatim>\<open>None\<close>.\<close>

fun get_default :: "'a field \<Rightarrow> 'a \<Rightarrow> 'a option" where
  "get_default Missing d = Some d"
| "get_default PyNone d = None"
| "get_default (Val v) d = Some v"

text \<open>\<^verbatim>\<open>d[k]\<close>: an absent key raises \<^verbatim>\<open>KeyError\<close>.\<close>

fun subscript :: "'a field \<Rightarrow> py_error + 'a option" where
  "subscript Missing = Inl KeyError"
| "subscript PyNone = Inr None"
| "subscript (Val v) = Inr (Some v)"

text \<open>A method call on the result of \<^verbatim>\<open>get\<close>: \<^verbatim>\<open>None.strip()\<close> and
  \<^verbatim>\<open>None.lower()\<close> raise \<^verbatim>\<open>AttributeError\<close>.\<close>

fun str_method :: "(string \<Rightarrow> 'b) \<Rightarrow> string option \<Rightarrow> py_error + 'b" where
  "str_method f None = Inl AttributeError"
| "str_method f (Some s) = Inr (f s)"

definition py_isspace :: "char \<Rightarrow> bool" where
  "py_isspace c = ((of_char c :: nat) \<in> {9, 10, 11, 12, 13, 28, 29, 30, 31, 32, 133, 160})"

definition py_strip :: "string \<Rightarrow> string" where
  "py_strip s = rev (dropWhile py_isspace (rev (dropWhile py_isspace s)))"

definition py_lower_char :: "char \<Rightarrow> char" where
  "py_lower_char c =
     (let n = (of_char c :: nat)
      in if (65 \<le> n \<and> n \<le> 90) \<or> (192 \<le> n \<and> n \<le> 222 \<and> n \<noteq> 215)
         then char_of (n + 32) else c)"

definition py_lower :: "string \<Rightarrow> string" where
  "py_lower s = map py_lower_char s"

text \<open>Rounding to the nearest integer, a tie to the even one.\<close>

definition round_half_even :: "real \<Rightarrow> int" where
  "round_half_even y =
     (let f = \<lfloor>y\<rfloor>; d = y - of_int f
      in if d < 1 / 2 then f else if 1 / 2 < d then f + 1
         else if even f then f else f + 1)"

text \<open>Binary64 arithmetic. \<open>binade x\<close> is the exponent \<open>k\<close> with
  \<open>2\<^sup>k \<le> |x| < 2\<^sup>k\<^sup>+\<^sup>1\<close>. \<open>fl x\<close> is the binary64 number nearest to \<open>x\<close>, a tie going to
  the even significand: a multiple of \<open>2\<^sup>k\<^sup>-\<^sup>5\<^sup>2\<close>, with \<open>k\<close> not below -1022, where the
  subnormal numbers begin. A result beyond the largest binary64 number, which Python gives
  as \<^verbatim>\<open>inf\<close>, is left as the rounded real; it compares with a finite threshold as
  \<^verbatim>\<open>inf\<close> does. \<open>binary64 x\<close> says that \<open>x\<close> is the value of a finite float.\<close>

definition binade :: "real \<Rightarrow> int" where
  "binade x = \<lfloor>log 2 \<bar>x\<bar>\<rfloor>"

definition fl :: "real \<Rightarrow> real" where
  "fl x =
     (if x = 0 then 0
      else let e = max (binade x) (- 1022) - 52
           in of_int (round_half_even (x * 2 powr (- of_int e))) * 2 powr (of_int e))"


text \<open>\<^verbatim>\<open>round(x, 6)\<close> of a float: its value is rounded to the nearest multiple of
  \<open>10\<^sup>-\<^sup>6\<close>, a tie to the even one, and the result is the float nearest to that
  decimal.\<close>

definition py_round6 :: "real \<Rightarrow> real" where
  "py_round6 x = fl (of_int (round_half_even (x * 1000000)) / 1000000)"

subsection \<open>The normaliser: \<^verbatim>\<open>homogenize_incidents\<close>\<close>

definition type_mapping :: "(string \<times> string) list" where
  "type_mapping =
     [(''accidente'', ''ACCIDENTE''),
      (''atasco'', ''ATASCO''),
      (''construccion'', ''CONSTRUCCION''),
      (''peligro'', ''PELIGRO''),
      (''clima'', ''CLIMA''),
      (''alerta'', ''ALERTA''),
      (''otro'', ''OTRO'')]"

definition comuna_mapping :: "(string \<times> string) list" where
  "comuna_mapping =
     [(''santiago'', ''Santiago''),
      (''las condes'', ''Las Condes''),
      (''providencia'', ''Providencia''),
      ([CHR 0xF1, CHR ''u'', CHR 0xF1, CHR ''o'', CHR ''a''],
       [CHR 0xD1, CHR ''u'', CHR 0xF1, CHR ''o'', CHR ''a'']),
      (''maip'' @ [CHR 0xFA], ''Maip'' @ [CHR 0xFA]),
      (''maipu'', ''Maip'' @ [CHR 0xFA]),
      (''la florida'', ''La Florida''),
      (''puente alto'', ''Puente Alto''),
      (''pe'' @ [CHR 0xF1] @ ''alol'' @ [CHR 0xE9] @ ''n'',
       ''Pe'' @ [CHR 0xF1] @ ''alol'' @ [CHR 0xE9] @ ''n''),
      (''penalolen'', ''Pe'' @ [CHR 0xF1] @ ''alol'' @ [CHR 0xE9] @ ''n'')]"

text \<open>\<^verbatim>\<open>if severity > 10: severity = min(severity // 10, 10)\<close>; comparing \<^verbatim>\<open>None\<close>
  with 10 raises \<^verbatim>\<open>TypeError\<close>.\<close>

fun rescale_severity :: "int option \<Rightarrow> py_error + int" where
  "rescale_severity None = Inl TypeError"
| "rescale_severity (Some s) = Inr (if s > 10 then min (s div 10) 10 else s)"

text \<open>\<^verbatim>\<open>round(incident[k], 6)\<close>.\<close>

fun round_coordinate :: "real field \<Rightarrow> py_error + real" where
  "round_coordinate Missing = Inl KeyError"
| "round_coordinate PyNone = Inl TypeError"
| "round_coordinate (Val x) = Inr (py_round6 x)"

fun of_option :: "'a option \<Rightarrow> 'a field" where
  "of_option None = PyNone"
| "of_option (Some v) = Val v"

text \<open>The body of the loop of \<^verbatim>\<open>homogenize_incidents\<close>, in the source's order of
  evaluation; \<open>Inl e\<close> is the exception that the \<^verbatim>\<open>except\<close> clause catches.\<close>

definition homogenize_incident :: "incident \<Rightarrow> py_error + incident" where
  "homogenize_incident inc =
    (case str_method py_lower (get_default (incident_type inc) '''') of
       Inl e \<Rightarrow> Inl e
     | Inr itype \<Rightarrow>
    let standardized_type =
          (case map_of type_mapping itype of None \<Rightarrow> ''OTRO'' | Some t \<Rightarrow> t) in
    (case str_method (\<lambda>s. py_strip (py_lower s)) (get_default (comuna inc) '''') of
       Inl e \<Rightarrow> Inl e
     | Inr com \<Rightarrow>
    let standardized_comuna =
          (case map_of comuna_mapping com of
             None \<Rightarrow> get_default (comuna inc) '''' | Some c \<Rightarrow> Some c) in
    (case str_method py_strip (get_default (description inc) '''') of
       Inl e \<Rightarrow> Inl e
     | Inr desc0 \<Rightarrow>
    let desc = (if desc0 = [] then ''Incidente de tipo '' @ standardized_type else desc0) in
    (case rescale_severity (get_default (severity inc) 0) of
       Inl e \<Rightarrow> Inl e
     | Inr sev \<Rightarrow>
    (case subscript (incident_id inc) of
       Inl e \<Rightarrow> Inl e
     | Inr iid \<Rightarrow>
    (case round_coordinate (latitude inc) of
       Inl e \<Rightarrow> Inl e
     | Inr lat \<Rightarrow>
    (case round_coordinate (longitude inc) of
       Inl e \<Rightarrow> Inl e
     | Inr lon \<Rightarrow>
    (case str_method py_strip (get_default (street inc) '''') of
       Inl e \<Rightarrow> Inl e
     | Inr str \<Rightarrow>
    (case str_method py_strip (get_default (city inc) '''') of
       Inl e \<Rightarrow> Inl e
     | Inr cty \<Rightarrow>
    (case subscript (timestamp inc) of
       Inl e \<Rightarrow> Inl e
     | Inr ts \<Rightarrow>
       Inr \<lparr> incident_id = of_option iid,
             incident_type = Val standardized_type,
             description = Val desc,
             latitude = Val lat,
             longitude = Val lon,
             street = Val str,
             city = Val cty,
             comuna = of_option standardized_comuna,
             severity = Val sev,
             timestamp = of_option ts,
             source = of_option (get_default (source inc) ''waze'') \<rparr>))))))))))"

text \<open>The loop: a record whose body raises is logged and skipped (\<^verbatim>\<open>continue\<close>).\<close>

fun homogenize_incidents :: "incident list \<Rightarrow> incident list" where
  "homogenize_incidents [] = []"
| "homogenize_incidents (inc # incs) =
     (case homogenize_incident inc of
        Inl e \<Rightarrow> homogenize_incidents incs
      | Inr h \<Rightarrow> h # homogenize_incidents incs)"

subsection \<open>The validator: \<^verbatim>\<open>is_valid_incident\<close>\<close>

text \<open>\<^verbatim>\<open>incident.get(field)\<close> is truthy: the key is bound to a non-empty string, a non-zero
  number, or a datetime (always truthy).\<close>

fun truthy_str :: "string field \<Rightarrow> bool" where
  "truthy_str (Val s) = (s \<noteq> [])"
| "truthy_str _ = False"

fun truthy_num :: "real field \<Rightarrow> bool" where
  "truthy_num (Val x) = (x \<noteq> 0)"
| "truthy_num _ = False"

fun truthy_time :: "pytime field \<Rightarrow> bool" where
  "truthy_time (Val (TStr s)) = (s \<noteq> [])"
| "truthy_time (Val (TDatetime d)) = True"
| "truthy_time _ = False"

definition required_fields :: "incident \<Rightarrow> bool" where
  "required_fields inc =
     (truthy_str (incident_id inc) \<and> truthy_str (incident_type inc) \<and>
      truthy_num (latitude inc) \<and> truthy_num (longitude inc) \<and>
      truthy_time (timestamp inc))"

text \<open>\<^verbatim>\<open>s.replace('Z', '+00:00')\<close>.\<close>

definition replace_Z :: "string \<Rightarrow> string" where
  "replace_Z s = concat (map (\<lambda>c. if c = CHR ''Z'' then ''+00:00'' else [c]) s)"

text \<open>The \<^verbatim>\<open>isinstance(t, str)\<close> step: a string goes through
  \<^verbatim>\<open>datetime.fromisoformat\<close>, a parameter of the model (\<open>None\<close> is its
  \<^verbatim>\<open>ValueError\<close>).\<close>

fun to_datetime :: "(string \<Rightarrow> datetime option) \<Rightarrow> pytime \<Rightarrow> py_error + datetime" where
  "to_datetime fromisoformat (TStr s) =
     (case fromisoformat (replace_Z s) of None \<Rightarrow> Inl ValueError | Some d \<Rightarrow> Inr d)"
| "to_datetime fromisoformat (TDatetime d) = Inr d"

text \<open>\<^verbatim>\<open>timedelta.days\<close> of a difference of \<open>us\<close> microseconds (rounded down).\<close>

definition days :: "int \<Rightarrow> int" where
  "days us = us div 86400000000"

text \<open>\<^verbatim>\<open>-33.8 <= lat <= -33.2 and -71.0 <= lon <= -70.3\<close>.\<close>

definition in_bounding_box :: "real \<Rightarrow> real \<Rightarrow> bool" where
  "in_bounding_box lat lon =
     (- 33.8 \<le> lat \<and> lat \<le> - 33.2 \<and> - 71.0 \<le> lon \<and> lon \<le> - 70.3)"

text \<open>\<open>now\<close> is the reading of \<^verbatim>\<open>datetime.now()\<close>, the local wall clock in
  microseconds; \<^verbatim>\<open>replace(tzinfo=incident_time.tzinfo)\<close> gives it the incident's own
  offset, so the difference is the difference of the two wall-clock readings. The last
  branch of the outer \<open>case\<close> is not reached: the required fields are bound when
  tested.\<close>

definition is_valid_incident ::
  "(string \<Rightarrow> datetime option) \<Rightarrow> int \<Rightarrow> incident \<Rightarrow> py_error + bool" where
  "is_valid_incident fromisoformat now inc =
    (if \<not> required_fields inc then Inr False
     else case (latitude inc, longitude inc, timestamp inc) of
       (Val lat, Val lon, Val t) \<Rightarrow>
         if \<not> in_bounding_box lat lon then Inr False
         else (case str_method py_strip (get_default (description inc) []) of
                 Inl e \<Rightarrow> Inl e
               | Inr desc \<Rightarrow>
                   if length desc < 3 then Inr False
                   else (case to_datetime fromisoformat t of
                           Inl e \<Rightarrow> Inr False
                         | Inr incident_time \<Rightarrow>
                             if days (now - wall incident_time) > 7 then Inr False
                             else Inr True))
     | _ \<Rightarrow> Inr False)"

subsection \<open>The deduplicator: \<^verbatim>\<open>are_incidents_duplicate\<close>, \<^verbatim>\<open>remove_duplicates\<close>\<close>

text \<open>The literals \<^verbatim>\<open>0.001\<close>, a float, and \<^verbatim>\<open>300\<close>, an integer.\<close>

definition duplicate_distance_threshold :: real where
  "duplicate_distance_threshold = fl 0.001"

definition duplicate_time_threshold :: int where
  "duplicate_time_threshold = 300"

text \<open>\<^verbatim>\<open>inc1[k] != inc2[k]\<close>: both subscripts are evaluated first.\<close>

fun differ :: "'a field \<Rightarrow> 'a field \<Rightarrow> py_error + bool" where
  "differ Missing _ = Inl KeyError"
| "differ _ Missing = Inl KeyError"
| "differ a b = Inr (a \<noteq> b)"

text \<open>\<^verbatim>\<open>abs(inc1[k] - inc2[k])\<close>: the difference of two floats is rounded to a float,
  whose absolute value is exact; subtracting \<^verbatim>\<open>None\<close> raises \<^verbatim>\<open>TypeError\<close>.\<close>

fun abs_diff :: "real field \<Rightarrow> real field \<Rightarrow> py_error + real" where
  "abs_diff Missing _ = Inl KeyError"
| "abs_diff _ Missing = Inl KeyError"
| "abs_diff (Val a) (Val b) = Inr \<bar>fl (a - b)\<bar>"
| "abs_diff _ _ = Inl TypeError"

text \<open>\<^verbatim>\<open>time1 - time2\<close> in microseconds: two naive datetimes differ by their wall
  clocks, two aware ones by their instants; mixing them raises \<^verbatim>\<open>TypeError\<close>.\<close>

definition instant :: "datetime \<Rightarrow> int" where
  "instant d = wall d - (case utcoffset d of None \<Rightarrow> 0 | Some off \<Rightarrow> off)"

definition sub_datetime :: "datetime \<Rightarrow> datetime \<Rightarrow> py_error + int" where
  "sub_datetime d1 d2 =
     (if (utcoffset d1 = None) = (utcoffset d2 = None) then Inr (instant d1 - instant d2)
      else Inl TypeError)"

text \<open>The body of the \<^verbatim>\<open>try\<close> block up to \<^verbatim>\<open>time1 - time2\<close>; every exception
  in it is caught by the caller below.\<close>

fun time_diff ::
  "(string \<Rightarrow> datetime option) \<Rightarrow> pytime field \<Rightarrow> pytime field \<Rightarrow> py_error + int" where
  "time_diff fromisoformat Missing _ = Inl KeyError"
| "time_diff fromisoformat _ Missing = Inl KeyError"
| "time_diff fromisoformat (Val t1) (Val t2) =
     (case to_datetime fromisoformat t1 of
        Inl e \<Rightarrow> Inl e
      | Inr d1 \<Rightarrow>
          (case to_datetime fromisoformat t2 of
             Inl e \<Rightarrow> Inl e
           | Inr d2 \<Rightarrow> sub_datetime d1 d2))"
| "time_diff fromisoformat _ _ = Inl TypeError"

text \<open>\<^verbatim>\<open>abs(td.total_seconds()) > 300\<close> is taken on microseconds.\<close>

definition are_incidents_duplicate ::
  "(string \<Rightarrow> datetime option) \<Rightarrow> incident \<Rightarrow> incident \<Rightarrow> py_error + bool" where
  "are_incidents_duplicate fromisoformat inc1 inc2 =
    (case differ (incident_type inc1) (incident_type inc2) of
       Inl e \<Rightarrow> Inl e
     | Inr different \<Rightarrow>
    if different then Inr False else
    (case abs_diff (latitude inc1) (latitude inc2) of
       Inl e \<Rightarrow> Inl e
     | Inr lat_diff \<Rightarrow>
    (case abs_diff (longitude inc1) (longitude inc2) of
       Inl e \<Rightarrow> Inl e
     | Inr lon_diff \<Rightarrow>
         if lat_diff > duplicate_distance_threshold \<or> lon_diff > duplicate_distance_threshold
         then Inr False
         else (case time_diff fromisoformat (timestamp inc1) (timestamp inc2) of
                 Inl e \<Rightarrow> Inr False
               | Inr td \<Rightarrow>
                   if \<bar>td\<bar> > duplicate_time_threshold * 1000000 then Inr False
                   else Inr True))))"

text \<open>\<^verbatim>\<open>sorted(incidents, key=lambda x: x['timestamp'])\<close>. The key of an absent
  timestamp raises \<^verbatim>\<open>KeyError\<close>. Two keys compare only when both are strings, both
  naive datetimes or both aware datetimes; a list of two or more keys that are not all of
  one such class raises \<^verbatim>\<open>TypeError\<close>. Within a class the order is the lexicographic
  one of strings, or the one of instants. Python's sort is stable, as \<open>sort_key\<close> is.\<close>

datatype key_class = KStr | KNaive | KAware

fun class_of_key :: "pytime field \<Rightarrow> key_class option" where
  "class_of_key (Val (TStr s)) = Some KStr"
| "class_of_key (Val (TDatetime d)) = Some (if utcoffset d = None then KNaive else KAware)"
| "class_of_key _ = None"

fun sortable :: "pytime field list \<Rightarrow> bool" where
  "sortable [] = True"
| "sortable [k] = True"
| "sortable (k # ks) =
     (class_of_key k \<noteq> None \<and> list_all (\<lambda>k'. class_of_key k' = class_of_key k) ks)"

fun order_key :: "pytime field \<Rightarrow> int \<times> string" where
  "order_key (Val (TStr s)) = (0, s)"
| "order_key (Val (TDatetime d)) = (instant d, [])"
| "order_key _ = (0, [])"

definition sorted_by_timestamp :: "incident list \<Rightarrow> py_error + incident list" where
  "sorted_by_timestamp incidents =
     (if list_ex (\<lambda>inc. timestamp inc = Missing) incidents then Inl KeyError
      else if \<not> sortable (map timestamp incidents) then Inl TypeError
      else Inr (sort_key (\<lambda>inc. order_key (timestamp inc)) incidents))"

text \<open>The inner loop with its \<^verbatim>\<open>break\<close>, and the outer loop with the accumulator
  \<^verbatim>\<open>deduplicated\<close>.\<close>

fun is_duplicate ::
  "(string \<Rightarrow> datetime option) \<Rightarrow> incident \<Rightarrow> incident list \<Rightarrow> py_error + bool" where
  "is_duplicate fromisoformat inc [] = Inr False"
| "is_duplicate fromisoformat inc (existing # rest) =
     (case are_incidents_duplicate fromisoformat inc existing of
        Inl e \<Rightarrow> Inl e
      | Inr dup \<Rightarrow> if dup then Inr True else is_duplicate fromisoformat inc rest)"

fun dedup_loop ::
  "(string \<Rightarrow> datetime option) \<Rightarrow> incident list \<Rightarrow> incident list
     \<Rightarrow> py_error + incident list" where
  "dedup_loop fromisoformat [] deduplicated = Inr deduplicated"
| "dedup_loop fromisoformat (inc # incs) deduplicated =
     (case is_duplicate fromisoformat inc deduplicated of
        Inl e \<Rightarrow> Inl e
      | Inr dup \<Rightarrow>
          if dup then dedup_loop fromisoformat incs deduplicated
          else dedup_loop fromisoformat incs (deduplicated @ [inc]))"

definition remove_duplicates ::
  "(string \<Rightarrow> datetime option) \<Rightarrow> incident list \<Rightarrow> py_error + incident list" where
  "remove_duplicates fromisoformat incidents =
     (if incidents = [] then Inr incidents
      else case sorted_by_timestamp incidents of
             Inl e \<Rightarrow> Inl e
           | Inr sorted_incidents \<Rightarrow> dedup_loop fromisoformat sorted_incidents [])"

subsection \<open>The raw store and \<^verbatim>\<open>filter_and_clean_data\<close>\<close>

text \<open>The table \<^verbatim>\<open>traffic_incidents\<close>: the rows in the order in which the server scans
  them (the insertion order, for a table that is only appended to), each with its
  \<^verbatim>\<open>processed\<close> flag.\<close>

record stored =
  row :: incident
  processed :: bool

text \<open>\<^verbatim>\<open>ORDER BY timestamp DESC\<close>: the latest first. SQL leaves the order of rows with
  equal timestamps to the server; here they keep the order of the scan.\<close>

definition order_by_timestamp_desc :: "incident list \<Rightarrow> incident list" where
  "order_by_timestamp_desc incs = rev (sort_key (\<lambda>inc. order_key (timestamp inc)) (rev incs))"

text \<open>\<^verbatim>\<open>SELECT * ... WHERE processed = FALSE ORDER BY timestamp DESC\<close>.\<close>

definition fetch_unprocessed :: "stored list \<Rightarrow> incident list" where
  "fetch_unprocessed st =
     order_by_timestamp_desc (map row (filter (\<lambda>s. \<not> processed s) st))"

text \<open>The validation loop; an exception of \<^verbatim>\<open>is_valid_incident\<close> leaves the loop. One
  reading \<open>now\<close> of the clock serves the whole batch.\<close>

fun filter_valid ::
  "(string \<Rightarrow> datetime option) \<Rightarrow> int \<Rightarrow> incident list \<Rightarrow> py_error + incident list" where
  "filter_valid fromisoformat now [] = Inr []"
| "filter_valid fromisoformat now (inc # incs) =
     (case is_valid_incident fromisoformat now inc of
        Inl e \<Rightarrow> Inl e
      | Inr ok \<Rightarrow>
          (case filter_valid fromisoformat now incs of
             Inl e \<Rightarrow> Inl e
           | Inr filtered \<Rightarrow> Inr (if ok then inc # filtered else filtered)))"

text \<open>\<^verbatim>\<open>UPDATE ... SET processed = TRUE WHERE incident_id = ANY(ids)\<close>: a row matches when
  its id is a string that occurs in the list (a NULL never matches).\<close>

definition matches_any :: "string field list \<Rightarrow> stored \<Rightarrow> bool" where
  "matches_any ids s =
     (case incident_id (row s) of Val i \<Rightarrow> Val i \<in> set ids | _ \<Rightarrow> False)"

definition mark_processed :: "string field list \<Rightarrow> stored list \<Rightarrow> stored list" where
  "mark_processed ids st =
     map (\<lambda>s. if matches_any ids s then s\<lparr>processed := True\<rparr> else s) st"

text \<open>\<open>conn\<close> tells whether \<^verbatim>\<open>get_database_connection\<close> returns a connection. The
  result is the store after the call and the pair
  \<^verbatim>\<open>(len(raw_incidents), len(homogenized_incidents))\<close>; any exception inside the
  \<^verbatim>\<open>try\<close> block is caught and gives \<^verbatim>\<open>(0, 0)\<close> with the store as it was.\<close>

definition filter_and_clean_data ::
  "bool \<Rightarrow> (string \<Rightarrow> datetime option) \<Rightarrow> int \<Rightarrow> stored list
     \<Rightarrow> stored list \<times> nat \<times> nat" where
  "filter_and_clean_data conn fromisoformat now st =
    (if \<not> conn then (st, 0, 0)
     else
       let raw_incidents = fetch_unprocessed st in
       if raw_incidents = [] then (st, 0, 0)
       else
         (case filter_valid fromisoformat now raw_incidents of
            Inl e \<Rightarrow> (st, 0, 0)
          | Inr filtered_incidents \<Rightarrow>
         (case remove_duplicates fromisoformat filtered_incidents of
            Inl e \<Rightarrow> (st, 0, 0)
          | Inr deduplicated_incidents \<Rightarrow>
              let homogenized_incidents = homogenize_incidents deduplicated_incidents;
                  incident_ids = map incident_id homogenized_incidents
              in ((if incident_ids \<noteq> [] then mark_processed incident_ids st else st),
                  length raw_incidents, length homogenized_incidents))))"

subsection \<open>The extract exporter: \<^verbatim>\<open>export_for_pig_processing\<close>\<close>

text \<open>\<^verbatim>\<open>s.replace('"', '""')\<close>, applied by the exporter to the description and the street
  before the frame is written.\<close>

definition escape_quotes :: "string \<Rightarrow> string" where
  "escape_quotes s = concat (map (\<lambda>c. if c = CHR 0x22 then [CHR 0x22, CHR 0x22] else [c]) s)"

text \<open>The CSV writer under \<^verbatim>\<open>DataFrame.to_csv\<close> with its default dialect (minimal
  quoting, doubled quotes): a cell that contains a comma, a double quote, a line feed or
  a carriage return is written between double quotes with every double quote in it
  doubled; any other cell is written as it is. Cells are joined with commas.\<close>

definition needs_quoting :: "string \<Rightarrow> bool" where
  "needs_quoting s = list_ex (\<lambda>c. c = CHR '','' \<or> c = CHR 0x22 \<or> c = CHR 0x0A \<or> c = CHR 0x0D) s"

definition csv_field :: "string \<Rightarrow> string" where
  "csv_field s = (if needs_quoting s then [CHR 0x22] @ escape_quotes s @ [CHR 0x22] else s)"

fun csv_line :: "string list \<Rightarrow> string" where
  "csv_line [] = []"
| "csv_line [cell] = csv_field cell"
| "csv_line (cell # cells) = csv_field cell @ [CHR '',''] @ csv_line cells"

text \<open>A standard CSV reader on the text of one record, as the state machine of Python's
  \<^verbatim>\<open>csv.reader\<close>: \<open>field\<close> is the cell being read, \<open>parsed\<close> the cells read so
  far.\<close>

datatype reader_state = StartField | InField | InQuotedField | QuoteInQuotedField

fun csv_read :: "reader_state \<Rightarrow> string \<Rightarrow> string list \<Rightarrow> string \<Rightarrow> string list" where
  "csv_read state field parsed [] = parsed @ [field]"
| "csv_read StartField field parsed (c # cs) =
     (if c = CHR 0x22 then csv_read InQuotedField field parsed cs
      else if c = CHR '','' then csv_read StartField [] (parsed @ [field]) cs
      else csv_read InField (field @ [c]) parsed cs)"
| "csv_read InField field parsed (c # cs) =
     (if c = CHR '','' then csv_read StartField [] (parsed @ [field]) cs
      else csv_read InField (field @ [c]) parsed cs)"
| "csv_read InQuotedField field parsed (c # cs) =
     (if c = CHR 0x22 then csv_read QuoteInQuotedField field parsed cs
      else csv_read InQuotedField (field @ [c]) parsed cs)"
| "csv_read QuoteInQuotedField field parsed (c # cs) =
     (if c = CHR 0x22 then csv_read InQuotedField (field @ [c]) parsed cs
      else if c = CHR '','' then csv_read StartField [] (parsed @ [field]) cs
      else csv_read InField (field @ [c]) parsed cs)"

definition parse_line :: "string \<Rightarrow> string list" where
  "parse_line s = csv_read StartField [] [] s"

text \<open>How pandas prints a number and a timestamp is a parameter of the model.\<close>

record renderer =
  str_float :: "real \<Rightarrow> string"
  str_int :: "int \<Rightarrow> string"
  str_time :: "pytime \<Rightarrow> string"

text \<open>\<^verbatim>\<open>fillna('')\<close> and the rendering of a cell.\<close>

fun text_cell :: "string field \<Rightarrow> string" where
  "text_cell (Val s) = s"
| "text_cell _ = []"

fun rendered_cell :: "('a \<Rightarrow> string) \<Rightarrow> 'a field \<Rightarrow> string" where
  "rendered_cell r (Val v) = r v"
| "rendered_cell r _ = []"

text \<open>The cells of one row of the frame, in the column order of the \<^verbatim>\<open>SELECT\<close>, after
  the two \<^verbatim>\<open>str.replace\<close> calls.\<close>

definition export_cells :: "renderer \<Rightarrow> incident \<Rightarrow> string list" where
  "export_cells fmt inc =
     [text_cell (incident_id inc),
      text_cell (incident_type inc),
      escape_quotes (text_cell (description inc)),
      rendered_cell (str_float fmt) (latitude inc),
      rendered_cell (str_float fmt) (longitude inc),
      escape_quotes (text_cell (street inc)),
      text_cell (city inc),
      text_cell (comuna inc),
      rendered_cell (str_int fmt) (severity inc),
      rendered_cell (str_time fmt) (timestamp inc),
      text_cell (source inc)]"

definition csv_header :: string where
  "csv_header =
     ''incident_id,incident_type,description,latitude,longitude,street,city,comuna,severity,timestamp,source''"

text \<open>\<^verbatim>\<open>SELECT ... WHERE processed = TRUE ORDER BY timestamp DESC LIMIT 10000\<close>.\<close>

definition fetch_processed :: "stored list \<Rightarrow> incident list" where
  "fetch_processed st =
     take 10000 (order_by_timestamp_desc (map row (filter processed st)))"

text \<open>The result is the returned path (empty when there is no connection or no row) and
  the lines of the file written, if one is; \<open>t\<close> is \<^verbatim>\<open>int(time.time())\<close>.\<close>

definition export_for_pig_processing ::
  "bool \<Rightarrow> renderer \<Rightarrow> int \<Rightarrow> stored list \<Rightarrow> string \<times> string list option" where
  "export_for_pig_processing conn fmt t st =
    (if \<not> conn then ([], None)
     else
       let incidents = fetch_processed st in
       if incidents = [] then ([], None)
       else (''/app/data/processed_incidents_'' @ str_int fmt t @ ''.csv'',
             Some (csv_header # map (\<lambda>inc. csv_line (export_cells fmt inc)) incidents)))"

text \<open>The cell writer of \<^verbatim>\<open>export_to_csv\<close> in \<^verbatim>\<open>scraper/scraper.py\<close>, the other
  exporter of the repository: it doubles the quotes and then adds the enclosing quotes
  itself.\<close>

definition scraper_field :: "string \<Rightarrow> string" where
  "scraper_field s =
     (let field = escape_quotes s
      in if CHR '','' \<in> set field \<or> CHR 0x22 \<in> set field
         then [CHR 0x22] @ field @ [CHR 0x22] else field)"

subsection \<open>The cache\<close>

text \<open>\<^verbatim>\<open>ProcessingMetrics\<close> and the report built from it. The report keeps the metrics, the
  cache statistics (key, exists, ttl) and the two counts of the database statistics
  (absent when there is no connection); the ratios derived from these numbers and the
  list of the most frequent types are left out.\<close>

record ProcessingMetrics =
  total_records :: nat
  filtered_records :: nat
  processing_time :: real
  errors_count :: int
  metrics_timestamp :: int

record processing_report =
  processing_metrics :: ProcessingMetrics
  cache_statistics :: "(string \<times> bool \<times> int) list"
  database_statistics :: "(nat \<times> nat) option"

text \<open>What a key holds: the text of a result file, the text of a clock reading, or the
  serialised report.\<close>

datatype payload = Text string | Stamp int | Report processing_report

text \<open>The Redis server as the processor and the API use it: each key holds a payload and
  the time, in seconds of the server's clock, at which it expires. \<^verbatim>\<open>SETEX key ttl v\<close>
  at time \<open>now\<close> makes the key expire at \<open>now + ttl\<close>; \<^verbatim>\<open>GET\<close> returns nothing for an
  absent key and for a key whose time has come; \<^verbatim>\<open>TTL\<close> is the remaining time, or -2
  for such a key.\<close>

record entry =
  payload_of :: payload
  expires_at :: int

type_synonym cache = "string \<Rightarrow> entry option"

definition setex :: "int \<Rightarrow> string \<Rightarrow> int \<Rightarrow> payload \<Rightarrow> cache \<Rightarrow> cache" where
  "setex now key ttl v c = c(key \<mapsto> \<lparr> payload_of = v, expires_at = now + ttl \<rparr>)"

definition cache_get :: "int \<Rightarrow> string \<Rightarrow> cache \<Rightarrow> payload option" where
  "cache_get now key c =
     (case c key of
        None \<Rightarrow> None
      | Some e \<Rightarrow> if expires_at e \<le> now then None else Some (payload_of e))"

definition cache_ttl :: "int \<Rightarrow> string \<Rightarrow> cache \<Rightarrow> int" where
  "cache_ttl now key c =
     (case c key of
        None \<Rightarrow> - 2
      | Some e \<Rightarrow> if expires_at e \<le> now then - 2 else expires_at e - now)"

subsection \<open>\<^verbatim>\<open>cache_analysis_results\<close> and \<^verbatim>\<open>generate_processing_report\<close>\<close>

definition output_files :: "(string \<times> string) list" where
  "output_files =
     [(''comuna_counts'', ''/output/incidents_by_comuna/part-r-00000''),
      (''type_counts'', ''/output/incidents_by_type/part-r-00000''),
      (''hourly_counts'', ''/output/incidents_by_hour/part-r-00000''),
      (''hotspots'', ''/output/traffic_hotspots/part-r-00000'')]"

text \<open>The loop over \<^verbatim>\<open>output_files\<close>: \<open>files\<close> maps the path of each existing file to its
  content; a file that does not exist is skipped.\<close>

fun cache_outputs ::
  "(string \<Rightarrow> string option) \<Rightarrow> int \<Rightarrow> (string \<times> string) list \<Rightarrow> cache \<Rightarrow> cache" where
  "cache_outputs files now [] c = c"
| "cache_outputs files now ((cache_key, file_path) # rest) c =
     cache_outputs files now rest
       (case files file_path of
          None \<Rightarrow> c
        | Some content \<Rightarrow> setex now (''analysis:'' @ cache_key) 3600 (Text content) c)"

definition cache_analysis_results :: "(string \<Rightarrow> string option) \<Rightarrow> int \<Rightarrow> cache \<Rightarrow> cache" where
  "cache_analysis_results files now c =
     setex now ''analysis:last_update'' 3600 (Stamp now) (cache_outputs files now output_files c)"

definition cache_keys :: "string list" where
  "cache_keys =
     [''analysis:comuna_counts'', ''analysis:type_counts'',
      ''analysis:hourly_counts'', ''analysis:hotspots'']"

definition generate_processing_report ::
  "bool \<Rightarrow> int \<Rightarrow> ProcessingMetrics \<Rightarrow> stored list \<Rightarrow> cache \<Rightarrow> processing_report" where
  "generate_processing_report conn now metrics st c =
     \<lparr> processing_metrics = metrics,
       cache_statistics =
         map (\<lambda>key. (key, cache_get now key c \<noteq> None, cache_ttl now key c)) cache_keys,
       database_statistics =
         (if conn then Some (length st, length (filter processed st)) else None) \<rparr>"

subsection \<open>The orchestrator: \<^verbatim>\<open>process_data_pipeline\<close>\<close>

text \<open>What a run reads from outside: whether the store answers at each of its three
  connections, \<^verbatim>\<open>fromisoformat\<close>, the clock readings of the stages, the elapsed time, the
  renderer of the exporter, the return codes of the two commands of
  \<^verbatim>\<open>run_pig_analysis\<close>, and the result files of the engine. The Redis server is taken to
  answer every call: a call that raises is caught by the enclosing \<^verbatim>\<open>try\<close>, and such a
  run does not complete.\<close>

record environment =
  conn_filter :: bool
  conn_export :: bool
  conn_report :: bool
  iso_parser :: "string \<Rightarrow> datetime option"
  wall_clock :: int
  export_time :: int
  cache_time :: int
  report_time :: int
  elapsed :: real
  render :: renderer
  hdfs_returncode :: int
  pig_returncode :: int
  result_files :: "string \<Rightarrow> string option"

text \<open>\<open>written\<close> tells whether the file at \<open>csv_path\<close> exists.\<close>

definition run_pig_analysis :: "environment \<Rightarrow> string \<Rightarrow> bool \<Rightarrow> bool" where
  "run_pig_analysis env csv_path written =
     (if csv_path = [] \<or> \<not> written then False
      else if hdfs_returncode env \<noteq> 0 then False
      else pig_returncode env = 0)"

text \<open>How a run ends, and the level of the message logged there: \<^verbatim>\<open>"No data to process"\<close>
  (info), \<^verbatim>\<open>"Failed to export data for Pig processing"\<close> (error),
  \<^verbatim>\<open>"Pig analysis failed"\<close> (error), or completion (info).\<close>

datatype outcome = NoData | ExportFailed | PigFailed | Completed

datatype log_level = INFO | WARNING | ERROR

fun outcome_level :: "outcome \<Rightarrow> log_level" where
  "outcome_level NoData = INFO"
| "outcome_level ExportFailed = ERROR"
| "outcome_level PigFailed = ERROR"
| "outcome_level Completed = INFO"

definition process_data_pipeline ::
  "environment \<Rightarrow> stored list \<Rightarrow> cache \<Rightarrow> stored list \<times> cache \<times> outcome" where
  "process_data_pipeline env st c =
    (case filter_and_clean_data (conn_filter env) (iso_parser env) (wall_clock env) st of
       (st1, n_total, n_filtered) \<Rightarrow>
    if n_filtered = 0 then (st1, c, NoData)
    else
    (case export_for_pig_processing (conn_export env) (render env) (export_time env) st1 of
       (csv_path, artifact) \<Rightarrow>
    if csv_path = [] then (st1, c, ExportFailed)
    else if \<not> run_pig_analysis env csv_path (artifact \<noteq> None) then (st1, c, PigFailed)
    else
      let c1 = cache_analysis_results (result_files env) (cache_time env) c;
          metrics = \<lparr> total_records = n_total, filtered_records = n_filtered,
                      processing_time = elapsed env, errors_count = 0,
                      metrics_timestamp = wall_clock env \<rparr>;
          report = generate_processing_report (conn_report env) (report_time env) metrics st1 c1
      in (st1, setex (report_time env) ''processing:last_report'' 3600 (Report report) c1,
          Completed)))"

text \<open>What the API gets at time \<open>now\<close> from \<^verbatim>\<open>redis_client.get("processing:last_report")\<close>.\<close>

definition last_report :: "int \<Rightarrow> cache \<Rightarrow> processing_report option" where
  "last_report now c =
     (case cache_get now ''processing:last_report'' c of
        Some (Report r) \<Rightarrow> Some r
      | _ \<Rightarrow> None)"

subsection \<open>Classes of input records\<close>

text \<open>The rows with no NULL in the nullable columns that \<^verbatim>\<open>homogenize_incidents\<close>
  reads through \<^verbatim>\<open>get\<close> and then uses as a string or a number.\<close>

definition no_null_column :: "incident \<Rightarrow> bool" where
  "no_null_column inc =
     (comuna inc \<noteq> PyNone \<and> severity inc \<noteq> PyNone \<and> street inc \<noteq> PyNone \<and>
      city inc \<noteq> PyNone)"



text \<open>The datetime that \<^verbatim>\<open>are_incidents_duplicate\<close> computes for a record inside its
  \<^verbatim>\<open>try\<close> block.\<close>

definition incident_time ::
  "(string \<Rightarrow> datetime option) \<Rightarrow> incident \<Rightarrow> py_error + datetime" where
  "incident_time fromisoformat inc =
     (case timestamp inc of
        Missing \<Rightarrow> Inl KeyError
      | PyNone \<Rightarrow> Inl TypeError
      | Val t \<Rightarrow> to_datetime fromisoformat t)"

subsection \<open>Example records\<close>

text \<open>Concrete inputs on which the theorems below are evaluated: a record that passes
  validation (an accident in central Santiago reported \<open>t\<close> seconds after the epoch, in
  UTC), and a \<^verbatim>\<open>fromisoformat\<close> that rejects every string.\<close>

definition utc :: "int \<Rightarrow> pytime field" where
  "utc seconds = Val (TDatetime \<lparr> wall = seconds * 1000000, utcoffset = Some 0 \<rparr>)"

definition example_incident :: "string \<Rightarrow> int \<Rightarrow> incident" where
  "example_incident i t =
     \<lparr> incident_id = Val i, incident_type = Val ''accidente'',
       description = Val ''Choque en la esquina'',
       latitude = Val (- 33.5), longitude = Val (- 70.5),
       street = Val ''Alameda'', city = Val ''Santiago'', comuna = Val ''santiago'',
       severity = Val 47, timestamp = utc t, source = Val ''waze'' \<rparr>"

definition no_fromisoformat :: "string \<Rightarrow> datetime option" where
  "no_fromisoformat s = None"

text \<open>A second report of the same accident: same type, at latitude \<open>lat\<close> and
  longitude \<open>-70.5 - 2\<^sup>-\<^sup>1\<^sup>1\<close>, \<open>us\<close> microseconds after the epoch. The coordinates of the
  examples are floats: \<open>-33.49951171875\<close> is \<open>-33.5 + 2\<^sup>-\<^sup>1\<^sup>1\<close>.\<close>

definition nearby_incident :: "string \<Rightarrow> real \<Rightarrow> int \<Rightarrow> incident" where
  "nearby_incident i lat us =
     (example_incident i 0)\<lparr> latitude := Val lat, longitude := Val (- 70.50048828125),
        timestamp := Val (TDatetime \<lparr> wall = us, utcoffset = Some 0 \<rparr>) \<rparr>"

text \<open>A store with two unprocessed reports of one accident, 100 s apart.\<close>

definition two_reports :: "stored list" where
  "two_reports =
     [\<lparr> row = example_incident ''a'' 0, processed = False \<rparr>,
      \<lparr> row = nearby_incident ''b'' (- 33.49951171875) 100000000, processed = False \<rparr>]"

text \<open>A record whose description has a comma and double quotes, and a renderer for the
  cells that are not text.\<close>

definition quoted_incident :: incident where
  "quoted_incident =
     (example_incident ''a'' 0)\<lparr> description := Val (''He said, '' @ [CHR 0x22] @ ''slow down'' @ [CHR 0x22]) \<rparr>"

definition plain_renderer :: renderer where
  "plain_renderer = \<lparr> str_float = (\<lambda>x. ''0.0''), str_int = (\<lambda>n. ''0''), str_time = (\<lambda>t. ''2025-06-01'') \<rparr>"

text \<open>A run in which everything outside the processor answers: the store is reachable,
  both commands return 0, the engine has left the file of the counts by type, and the
  clock reads 3600 s at the export, 3700 s when the results are cached and 3701 s when the
  report is stored.\<close>

definition calm_environment :: environment where
  "calm_environment =
     \<lparr> conn_filter = True, conn_export = True, conn_report = True,
       iso_parser = no_fromisoformat, wall_clock = 3600 * 1000000,
       export_time = 3600, cache_time = 3700, report_time = 3701, elapsed = 101,
       render = plain_renderer, hdfs_returncode = 0, pig_returncode = 0,
       result_files = [''/output/incidents_by_type/part-r-00000'' \<mapsto> ''ACCIDENTE 1''] \<rparr>"

definition empty_cache :: cache where
  "empty_cache = (\<lambda>key. None)"

text \<open>A store whose only record has a description of one character, and a store of two
  valid records, the second with its street bound to \<^verbatim>\<open>None\<close>.\<close>

definition short_report :: "stored list" where
  "short_report =
     [\<lparr> row = (example_incident ''a'' 0)\<lparr> description := Val ''x'' \<rparr>, processed = False \<rparr>]"

definition report_without_street :: "stored list" where
  "report_without_street =
     [\<lparr> row = example_incident ''a'' 0, processed = False \<rparr>,
      \<lparr> row = (example_incident ''x'' 1000)\<lparr> street := PyNone \<rparr>, processed = False \<rparr>]"

section \<open>Properties\<close>

lemmas example_defs = example_incident_def utc_def no_fromisoformat_def

lemmas strip_defs = py_strip_def py_isspace_def

subsection \<open>Binary64 arithmetic\<close>

lemma round_half_even_of_int: "round_half_even (of_int n) = n"
  by (simp add: round_half_even_def)

lemma binade_bounds:
  assumes "x \<noteq> 0"
  shows "2 powr (of_int (binade x)) \<le> \<bar>x\<bar>" "\<bar>x\<bar> < 2 powr (of_int (binade x + 1))"
  using assms floor_log_eq_powr_iff[of "\<bar>x\<bar>" 2 "binade x"] by (simp_all add: binade_def)

lemma binade_eq:
  assumes "2 powr (of_int k) \<le> \<bar>x\<bar>" "\<bar>x\<bar> < 2 powr (of_int (k + 1))"
  shows "binade x = k"
proof -
  from assms(1) have "0 < \<bar>x\<bar>" by (smt (verit) powr_gt_zero)
  with assms floor_log_eq_powr_iff[of "\<bar>x\<bar>" 2 k] show ?thesis by (simp add: binade_def)
qed

text \<open>A number with a significand of at most 53 bits and an exponent in the range of the
  format is not changed by rounding.\<close>

lemma fl_exact:
  assumes x: "x = of_int m * 2 powr (of_int e)" and m: "\<bar>m\<bar> < 2 ^ 53" and e: "- 1074 \<le> e"
  shows "fl x = x"
proof (cases "x = 0")
  case True
  then show ?thesis by (simp add: fl_def)
next
  case False
  define E where "E = max (binade x) (- 1022) - 52"
  have "\<bar>x\<bar> = of_int \<bar>m\<bar> * 2 powr (of_int e)" unfolding x by (simp add: abs_mult)
  also have "\<dots> < 2 ^ 53 * 2 powr (of_int e)"
  proof -
    from m have "(of_int \<bar>m\<bar> :: real) < of_int (2 ^ 53)" by (simp only: of_int_less_iff)
    then show ?thesis by simp
  qed
  also have "\<dots> = 2 powr (of_int (53 + e))"
    by (simp add: powr_add)
  finally have up: "\<bar>x\<bar> < 2 powr (of_int (53 + e))" .
  from binade_bounds(1)[OF False] up
  have "2 powr (of_int (binade x)) < (2::real) powr (of_int (53 + e))"
    by linarith
  then have "binade x < 53 + e" by simp
  with e have Ee: "E \<le> e" unfolding E_def by simp
  define n where "n = nat (e - E)"
  have en: "of_int e = of_int E + real n" using Ee unfolding n_def by simp
  have p: "(2::real) powr (of_int e) = 2 ^ n * 2 powr (of_int E)"
    unfolding en by (simp add: powr_add powr_realpow)
  have "x * 2 powr (- of_int E) = of_int m * 2 ^ n * (2 powr (of_int E) * 2 powr (- of_int E))"
    unfolding x p by simp
  also have "2 powr (of_int E) * 2 powr (- of_int E) = (1::real)"
    by (simp add: powr_minus)
  finally have "x * 2 powr (- of_int E) = of_int (m * 2 ^ n)" by simp
  then have "round_half_even (x * 2 powr (- of_int E)) = m * 2 ^ n"
    by (simp only: round_half_even_of_int)
  then have "fl x = of_int (m * 2 ^ n) * 2 powr (of_int E)"
    using False by (simp add: fl_def E_def Let_def)
  also have "\<dots> = x" unfolding x p by simp
  finally show ?thesis .
qed

lemma fl_dyadic:
  assumes "\<bar>m\<bar> < 2 ^ 53" and "p \<le> 1074"
  shows "fl (of_int m / 2 ^ p) = of_int m / 2 ^ p"
proof (rule fl_exact)
  have e: "real_of_int (- int p) = - real p" by simp
  have "(2::real) powr (of_int (- int p)) = 1 / 2 ^ p"
    unfolding e by (simp only: powr_minus_divide powr_realpow zero_less_numeral)
  then show "real_of_int m / 2 ^ p = of_int m * 2 powr (of_int (- int p))" by simp
  from assms show "\<bar>m\<bar> < 2 ^ 53" "- 1074 \<le> - int p" by simp_all
qed




text \<open>The literal \<^verbatim>\<open>0.001\<close> is the float \<open>1152921504606847 / 2\<^sup>6\<^sup>0\<close>, which exceeds one
  thousandth by about \<open>2 \<times> 10\<^sup>-\<^sup>2\<^sup>0\<close>. No multiple of \<open>2\<^sup>-\<^sup>4\<^sup>7\<close> lies between the two.\<close>

lemma binade_thousandth: "binade (1 / 1000) = - 10"
  by (rule binade_eq) (simp_all add: powr_neg_numeral)

lemma fl_thousandth: "fl (1 / 1000) = 1152921504606847 / 2 ^ 60"
  by (simp add: fl_def binade_thousandth Let_def round_half_even_def powr_neg_numeral)





text \<open>The floats of the example records and their differences.\<close>

lemma fl_zero: "fl 0 = 0"
  by (simp add: fl_def)

lemma fl_step: "fl (1 / 2048) = 1 / 2048" "fl (- (1 / 2048)) = - (1 / 2048)"
  using fl_dyadic[of 1 11] fl_dyadic[of "- 1" 11] by simp_all

lemmas fl_examples = fl_zero fl_step fl_thousandth


subsection \<open>The validator\<close>


lemma truthy_str_iff: "truthy_str x = (\<exists>s. x = Val s \<and> s \<noteq> [])"
  by (cases x) auto

lemma truthy_num_iff: "truthy_num x = (\<exists>r. x = Val r \<and> r \<noteq> 0)"
  by (cases x) auto

lemma truthy_time_iff: "truthy_time x = (\<exists>t. x = Val t \<and> t \<noteq> TStr [])"
  by (induction x rule: truthy_time.induct) auto






subsection \<open>Validated records\<close>

lemmas valid_defs = is_valid_incident_def required_fields_def in_bounding_box_def days_def

lemma valid_fields:
  assumes "is_valid_incident f now a = Inr True"
  shows "\<exists>i t la lo ts. incident_id a = Val i \<and> incident_type a = Val t \<and>
           latitude a = Val la \<and> longitude a = Val lo \<and> timestamp a = Val ts"
proof -
  have "required_fields a"
  proof (rule ccontr)
    assume "\<not> required_fields a"
    then have "is_valid_incident f now a = Inr False"
      by (simp add: is_valid_incident_def)
    with assms show False by simp
  qed
  then show ?thesis
    unfolding required_fields_def truthy_str_iff truthy_num_iff truthy_time_iff
    by blast
qed


lemma valid_description:
  assumes "is_valid_incident f now a = Inr True"
  shows "\<exists>d. get_default (description a) [] = Some d"
proof (rule ccontr)
  assume "\<nexists>d. get_default (description a) [] = Some d"
  then have none: "get_default (description a) [] = None" by simp
  from valid_fields[OF assms] obtain la lo ts where
    "latitude a = Val la" "longitude a = Val lo" "timestamp a = Val ts" by blast
  with none have "is_valid_incident f now a \<noteq> Inr True"
    by (simp add: is_valid_incident_def)
  with assms show False by simp
qed

subsection \<open>The normaliser\<close>

lemmas homogenize_defs = homogenize_incident_def type_mapping_def comuna_mapping_def
  py_lower_def py_lower_char_def py_round6_def round_half_even_def Let_def

lemma homogenize_incident_fields:
  assumes "homogenize_incident inc = Inr h"
  shows "\<exists>raw d0 t.
           get_default (severity inc) 0 = Some raw \<and>
           severity h = Val (if 10 < raw then min (raw div 10) 10 else raw) \<and>
           get_default (description inc) [] = Some d0 \<and>
           incident_type h = Val t \<and>
           description h = Val (if py_strip d0 = [] then ''Incidente de tipo '' @ t else py_strip d0)"
  using assms unfolding homogenize_incident_def Let_def
  by (cases "get_default (severity inc) 0"; cases "get_default (description inc) []")
     (auto split: sum.splits)

text \<open>
  Claim C6. Every record that the normaliser outputs has a raw severity (the value of the
  key, or 0 when the key is absent) and its normalised severity is the raw one divided
  by 10, rounded down and capped at 10, when the raw one exceeds 10, and the raw one
  unchanged otherwise.
\<close>

theorem severity_rescale:
  assumes "homogenize_incident inc = Inr h"
  shows "\<exists>raw. get_default (severity inc) 0 = Some raw \<and>
           (10 < raw \<longrightarrow> severity h = Val (min (raw div 10) 10)) \<and>
           (raw \<le> 10 \<longrightarrow> severity h = Val raw)"
proof -
  from homogenize_incident_fields[OF assms] obtain raw where
    "get_default (severity inc) 0 = Some raw"
    "severity h = Val (if 10 < raw then min (raw div 10) 10 else raw)"
    by blast
  then show ?thesis by auto
qed

text \<open>Raw 47 becomes 4, raw 999 becomes 10, raw 7 stays 7.\<close>

theorem severity_rescale_witness:
  "(\<exists>h. homogenize_incident (example_incident ''a'' 0) = Inr h \<and> severity h = Val 4) \<and>
   (\<exists>h. homogenize_incident ((example_incident ''a'' 0)\<lparr>severity := Val 999\<rparr>) = Inr h \<and>
        severity h = Val 10) \<and>
   (\<exists>h. homogenize_incident ((example_incident ''a'' 0)\<lparr>severity := Val 7\<rparr>) = Inr h \<and>
        severity h = Val 7)"
proof -
  obtain h1 where h1: "homogenize_incident (example_incident ''a'' 0) = Inr h1"
    by (simp add: homogenize_defs example_defs strip_defs)
  obtain h2 where h2: "homogenize_incident ((example_incident ''a'' 0)\<lparr>severity := Val 999\<rparr>) = Inr h2"
    by (simp add: homogenize_defs example_defs strip_defs)
  obtain h3 where h3: "homogenize_incident ((example_incident ''a'' 0)\<lparr>severity := Val 7\<rparr>) = Inr h3"
    by (simp add: homogenize_defs example_defs strip_defs)
  from severity_rescale[OF h1] have "severity h1 = Val 4" by (simp add: example_defs)
  moreover from severity_rescale[OF h2] have "severity h2 = Val 10" by (simp add: example_defs)
  moreover from severity_rescale[OF h3] have "severity h3 = Val 7" by (simp add: example_defs)
  ultimately show ?thesis using h1 h2 h3 by blast
qed

lemma get_default_Some: "x \<noteq> PyNone \<Longrightarrow> \<exists>v. get_default x d = Some v"
  by (cases x) auto

lemma set_homogenize_incidents:
  "set (homogenize_incidents incs) = {h. \<exists>inc\<in>set incs. homogenize_incident inc = Inr h}"
  by (induction incs) (auto split: sum.splits)

text \<open>A validated record is normalised exactly when none of its columns \<^verbatim>\<open>comuna\<close>,
  \<^verbatim>\<open>severity\<close>, \<^verbatim>\<open>street\<close> and \<^verbatim>\<open>city\<close> is NULL.\<close>

lemma homogenize_incident_null_column:
  assumes "is_valid_incident f now inc = Inr True"
  shows "(\<exists>h. homogenize_incident inc = Inr h) = no_null_column inc"
proof
  assume "\<exists>h. homogenize_incident inc = Inr h"
  then obtain h where h: "homogenize_incident inc = Inr h" ..
  have "comuna inc \<noteq> PyNone"
  proof
    assume "comuna inc = PyNone"
    with h show False unfolding homogenize_incident_def Let_def
      by (auto split: sum.splits)
  qed
  moreover have "severity inc \<noteq> PyNone"
  proof
    assume "severity inc = PyNone"
    with h show False unfolding homogenize_incident_def Let_def
      by (auto split: sum.splits)
  qed
  moreover have "street inc \<noteq> PyNone"
  proof
    assume "street inc = PyNone"
    with h show False unfolding homogenize_incident_def Let_def
      by (auto split: sum.splits)
  qed
  moreover have "city inc \<noteq> PyNone"
  proof
    assume "city inc = PyNone"
    with h show False unfolding homogenize_incident_def Let_def
      by (auto split: sum.splits)
  qed
  ultimately show "no_null_column inc" by (simp add: no_null_column_def)
next
  assume "no_null_column inc"
  then have nn: "comuna inc \<noteq> PyNone" "severity inc \<noteq> PyNone" "street inc \<noteq> PyNone"
    "city inc \<noteq> PyNone"
    by (simp_all add: no_null_column_def)
  from valid_fields[OF assms] obtain i t la lo ts where
    v: "incident_id inc = Val i" "incident_type inc = Val t" "latitude inc = Val la"
       "longitude inc = Val lo" "timestamp inc = Val ts"
    by blast
  from valid_description[OF assms] obtain d where d: "get_default (description inc) [] = Some d" ..
  obtain co where co: "get_default (comuna inc) [] = Some co"
    using get_default_Some[OF nn(1), of "[]"] by (elim exE)
  obtain se where se: "get_default (severity inc) 0 = Some se"
    using get_default_Some[OF nn(2), of 0] by (elim exE)
  obtain st where st: "get_default (street inc) [] = Some st"
    using get_default_Some[OF nn(3), of "[]"] by (elim exE)
  obtain ci where ci: "get_default (city inc) [] = Some ci"
    using get_default_Some[OF nn(4), of "[]"] by (elim exE)
  show "\<exists>h. homogenize_incident inc = Inr h"
    unfolding homogenize_incident_def Let_def
    by (simp add: v d co se st ci)
qed

lemma homogenize_incident_description:
  assumes "homogenize_incident inc = Inr h"
  shows "\<exists>d. description h = Val d \<and> d \<noteq> []"
proof -
  from homogenize_incident_fields[OF assms] obtain d0 t where
    "description h = Val (if py_strip d0 = [] then ''Incidente de tipo '' @ t else py_strip d0)"
    by blast
  then show ?thesis by simp
qed

text \<open>
  Claim C7, against the code. \<^verbatim>\<open>homogenize_incidents\<close> receives the rows that passed
  \<^verbatim>\<open>is_valid_incident\<close>. It returns as many records as there are rows with no NULL in
  the columns \<^verbatim>\<open>comuna\<close>, \<^verbatim>\<open>severity\<close>, \<^verbatim>\<open>street\<close> and \<^verbatim>\<open>city\<close>: the fallback
  \<^verbatim>\<open>incident.get(k, '')\<close> replaces an absent key, which a row never has, and returns
  \<^verbatim>\<open>None\<close> for a NULL, on which \<^verbatim>\<open>.strip()\<close>, \<^verbatim>\<open>.lower()\<close> and \<^verbatim>\<open>> 10\<close> raise;
  the row is then skipped. So the number of outputs is less than the number of inputs
  whenever a validated row has a NULL in one of these nullable columns. Every output has
  a non-empty description.
\<close>

theorem homogenize_incidents_null_columns:
  assumes "\<forall>inc\<in>set incs. is_valid_incident f now inc = Inr True"
  shows "length (homogenize_incidents incs) = length (filter no_null_column incs) \<and>
         (\<forall>h\<in>set (homogenize_incidents incs). \<exists>d. description h = Val d \<and> d \<noteq> [])"
proof
  show "length (homogenize_incidents incs) = length (filter no_null_column incs)"
    using assms
  proof (induction incs)
    case Nil
    then show ?case by simp
  next
    case (Cons inc incs)
    from Cons.prems have v: "is_valid_incident f now inc = Inr True" by simp
    from Cons.prems have "\<forall>inc\<in>set incs. is_valid_incident f now inc = Inr True" by simp
    from Cons.IH[OF this]
    have IH: "length (homogenize_incidents incs) = length (filter no_null_column incs)" .
    show ?case
    proof (cases "homogenize_incident inc")
      case (Inl e)
      with homogenize_incident_null_column[OF v] have "\<not> no_null_column inc" by auto
      with Inl IH show ?thesis by simp
    next
      case (Inr h)
      with homogenize_incident_null_column[OF v] have "no_null_column inc" by auto
      with Inr IH show ?thesis by simp
    qed
  qed
next
  show "\<forall>h\<in>set (homogenize_incidents incs). \<exists>d. description h = Val d \<and> d \<noteq> []"
    unfolding set_homogenize_incidents using homogenize_incident_description by blast
qed

text \<open>Two validated rows, the second with a NULL street: one output. The same row without
  the key \<^verbatim>\<open>street\<close> would be normalised, with the empty street of the fallback.\<close>

theorem homogenize_incidents_null_columns_witness:
  "is_valid_incident no_fromisoformat (3600 * 1000000) (example_incident ''a'' 0) = Inr True \<and>
   is_valid_incident no_fromisoformat (3600 * 1000000)
     ((example_incident ''x'' 1000)\<lparr> street := PyNone \<rparr>) = Inr True \<and>
   length (homogenize_incidents
     [example_incident ''a'' 0, (example_incident ''x'' 1000)\<lparr> street := PyNone \<rparr>]) = 1 \<and>
   homogenize_incident ((example_incident ''x'' 1000)\<lparr> street := PyNone \<rparr>) =
     Inl AttributeError \<and>
   homogenize_incident ((example_incident ''x'' 1000)\<lparr> city := PyNone \<rparr>) =
     Inl AttributeError \<and>
   homogenize_incident ((example_incident ''x'' 1000)\<lparr> comuna := PyNone \<rparr>) =
     Inl AttributeError \<and>
   homogenize_incident ((example_incident ''x'' 1000)\<lparr> severity := PyNone \<rparr>) =
     Inl TypeError \<and>
   map street (homogenize_incidents [(example_incident ''x'' 1000)\<lparr> street := Missing \<rparr>]) =
     [Val []]"
proof -
  let ?a = "example_incident ''a'' 0"
  let ?x = "(example_incident ''x'' 1000)\<lparr> street := PyNone \<rparr>"
  have v: "is_valid_incident no_fromisoformat (3600 * 1000000) ?a = Inr True"
    "is_valid_incident no_fromisoformat (3600 * 1000000) ?x = Inr True"
    by (simp_all add: valid_defs example_defs strip_defs)
  then have "\<forall>inc\<in>set [?a, ?x]. is_valid_incident no_fromisoformat (3600 * 1000000) inc = Inr True"
    by simp
  from homogenize_incidents_null_columns[OF this]
  have "length (homogenize_incidents [?a, ?x]) = length (filter no_null_column [?a, ?x])"
    by (rule conjunct1)
  also have "\<dots> = 1" by (simp add: no_null_column_def example_defs)
  finally have n: "length (homogenize_incidents [?a, ?x]) = 1" .
  have e: "homogenize_incident ?x = Inl AttributeError"
    "homogenize_incident ((example_incident ''x'' 1000)\<lparr> city := PyNone \<rparr>) = Inl AttributeError"
    "homogenize_incident ((example_incident ''x'' 1000)\<lparr> comuna := PyNone \<rparr>) = Inl AttributeError"
    "homogenize_incident ((example_incident ''x'' 1000)\<lparr> severity := PyNone \<rparr>) = Inl TypeError"
    by (simp_all add: homogenize_defs example_defs strip_defs)
  have m: "map street (homogenize_incidents [(example_incident ''x'' 1000)\<lparr> street := Missing \<rparr>]) =
     [Val []]"
    by (simp add: homogenize_defs example_defs strip_defs)
  from v n e m show ?thesis by simp
qed

subsection \<open>The duplicate rule\<close>



subsection \<open>The deduplicator\<close>

lemmas dedup_defs = remove_duplicates_def sorted_by_timestamp_def are_incidents_duplicate_def
  sub_datetime_def instant_def duplicate_distance_threshold_def duplicate_time_threshold_def
  nearby_incident_def fl_examples

lemma sortable_iff:
  "sortable ks = (length ks \<le> 1 \<or> (\<exists>c. \<forall>k\<in>set ks. class_of_key k = Some c))"
proof (cases ks rule: sortable.cases)
  case 1
  then show ?thesis by simp
next
  case (2 k)
  then show ?thesis by simp
next
  case (3 k k' ks')
  then show ?thesis by (auto simp add: list_all_iff)
qed

lemma sortable_mset:
  assumes "mset ks = mset ks'"
  shows "sortable ks = sortable ks'"
proof -
  from assms have "length ks = length ks'" by (rule mset_eq_length)
  moreover from assms have "set ks = set ks'" by (rule mset_eq_setD)
  ultimately show ?thesis unfolding sortable_iff by simp
qed

lemma sorted_by_timestamp_mset:
  assumes "mset xs = mset ys"
    and "distinct (map (\<lambda>inc. order_key (timestamp inc)) xs)"
  shows "sorted_by_timestamp xs = sorted_by_timestamp ys"
proof -
  let ?f = "\<lambda>inc. order_key (timestamp inc)"
  from assms(1) have s: "set xs = set ys" by (rule mset_eq_setD)
  have m: "list_ex (\<lambda>inc. timestamp inc = Missing) xs = list_ex (\<lambda>inc. timestamp inc = Missing) ys"
    unfolding list_ex_iff s ..
  from assms(1) have "mset (map timestamp xs) = mset (map timestamp ys)" by simp
  then have c: "sortable (map timestamp xs) = sortable (map timestamp ys)"
    by (rule sortable_mset)
  from assms(2) have inj: "inj_on ?f (set xs)" by (simp add: distinct_map)
  from assms(1) have ms: "mset xs = mset (sort_key ?f ys)" by simp
  have srt: "sorted (map ?f (sort_key ?f ys))" by simp
  have "sort_key ?f xs = sort_key ?f ys" by (rule sort_key_inj_key_eq[OF ms inj srt])
  with m c show ?thesis unfolding sorted_by_timestamp_def by simp
qed

lemma sorted_by_timestamp_props:
  assumes "sorted_by_timestamp xs = Inr zs"
  shows "mset zs = mset xs" and "sorted (map (\<lambda>inc. order_key (timestamp inc)) zs)"
  using assms unfolding sorted_by_timestamp_def by (auto split: if_splits)

lemma is_duplicate_True:
  "is_duplicate f x acc = Inr True \<Longrightarrow> \<exists>y\<in>set acc. are_incidents_duplicate f x y = Inr True"
proof (induction acc)
  case Nil
  then show ?case by simp
next
  case (Cons e es)
  then show ?case
    by (cases "are_incidents_duplicate f x e") (auto split: if_splits)
qed

lemma dedup_loop_sets:
  "dedup_loop f xs acc = Inr out \<Longrightarrow> set acc \<subseteq> set out \<and> set out \<subseteq> set acc \<union> set xs"
proof (induction xs arbitrary: acc)
  case Nil
  then show ?case by simp
next
  case (Cons x xs)
  show ?case
  proof (cases "is_duplicate f x acc")
    case (Inl e)
    with Cons.prems show ?thesis by simp
  next
    case (Inr dup)
    show ?thesis
    proof (cases dup)
      case True
      with Inr Cons.prems have "dedup_loop f xs acc = Inr out" by simp
      from Cons.IH[OF this] show ?thesis by auto
    next
      case False
      with Inr Cons.prems have "dedup_loop f xs (acc @ [x]) = Inr out" by simp
      from Cons.IH[OF this] show ?thesis by auto
    qed
  qed
qed

lemma dedup_loop_dropped:
  assumes "dedup_loop f xs acc = Inr out"
    and "sorted (map key (acc @ xs))"
  shows "\<forall>x\<in>set xs. x \<in> set out \<or>
           (\<exists>y\<in>set out. are_incidents_duplicate f x y = Inr True \<and> key y \<le> key x)"
  using assms
proof (induction xs arbitrary: acc)
  case Nil
  then show ?case by simp
next
  case (Cons x xs)
  from Cons.prems(2) have before: "\<forall>y\<in>set acc. key y \<le> key x"
    by (auto simp add: sorted_append)
  show ?case
  proof (cases "is_duplicate f x acc")
    case (Inl e)
    with Cons.prems show ?thesis by simp
  next
    case (Inr dup)
    show ?thesis
    proof (cases dup)
      case True
      with Inr Cons.prems have loop: "dedup_loop f xs acc = Inr out" by simp
      from Cons.prems(2) have "sorted (map key (acc @ xs))"
        by (auto simp add: sorted_append)
      from Cons.IH[OF loop this] have rest: "\<forall>x\<in>set xs. x \<in> set out \<or>
           (\<exists>y\<in>set out. are_incidents_duplicate f x y = Inr True \<and> key y \<le> key x)" .
      from True Inr have "is_duplicate f x acc = Inr True" by simp
      from is_duplicate_True[OF this] obtain y where
        y: "y \<in> set acc" "are_incidents_duplicate f x y = Inr True" by blast
      from dedup_loop_sets[OF loop] y(1) have "y \<in> set out" by blast
      with y before rest show ?thesis by auto
    next
      case False
      with Inr Cons.prems have loop: "dedup_loop f xs (acc @ [x]) = Inr out" by simp
      from Cons.prems(2) have "sorted (map key ((acc @ [x]) @ xs))" by simp
      from Cons.IH[OF loop this] have rest: "\<forall>x\<in>set xs. x \<in> set out \<or>
           (\<exists>y\<in>set out. are_incidents_duplicate f x y = Inr True \<and> key y \<le> key x)" .
      from dedup_loop_sets[OF loop] have "x \<in> set out" by auto
      with rest show ?thesis by auto
    qed
  qed
qed

text \<open>
  Claim C2, as the code has it. \<^verbatim>\<open>remove_duplicates\<close> is a function of its input list.
  For a batch whose timestamps are pairwise distinct under the order of the sort, every
  permutation of the batch gives the same result: the same canonical list, hence the same
  dropped records, or the same exception. The canonical records are records of the
  batch, and every record of the batch is canonical or is a duplicate of a canonical
  record whose timestamp is not later than its own. With equal timestamps the stable
  sort keeps the input order, and the canonical record depends on it.
\<close>

theorem remove_duplicates_order_independent:
  assumes "mset xs = mset ys"
    and "distinct (map (\<lambda>inc. order_key (timestamp inc)) xs)"
  shows "remove_duplicates f xs = remove_duplicates f ys \<and>
         (\<forall>out. remove_duplicates f xs = Inr out \<longrightarrow>
            set out \<subseteq> set xs \<and>
            (\<forall>x\<in>set xs. x \<in> set out \<or>
               (\<exists>y\<in>set out. are_incidents_duplicate f x y = Inr True \<and>
                  order_key (timestamp y) \<le> order_key (timestamp x))))"
proof (intro conjI allI impI)
  from assms(1) have "(xs = []) = (ys = [])" by (metis mset_zero_iff)
  with sorted_by_timestamp_mset[OF assms]
  show "remove_duplicates f xs = remove_duplicates f ys"
    unfolding remove_duplicates_def by simp
next
  fix out assume out: "remove_duplicates f xs = Inr out"
  show "set out \<subseteq> set xs"
  proof (cases "xs = []")
    case True
    with out show ?thesis by (simp add: remove_duplicates_def)
  next
    case False
    with out obtain zs where zs: "sorted_by_timestamp xs = Inr zs" "dedup_loop f zs [] = Inr out"
      unfolding remove_duplicates_def by (cases "sorted_by_timestamp xs") auto
    from sorted_by_timestamp_props(1)[OF zs(1)] have "set zs = set xs" by (rule mset_eq_setD)
    with dedup_loop_sets[OF zs(2)] show ?thesis by simp
  qed
next
  fix out assume out: "remove_duplicates f xs = Inr out"
  show "\<forall>x\<in>set xs. x \<in> set out \<or>
               (\<exists>y\<in>set out. are_incidents_duplicate f x y = Inr True \<and>
                  order_key (timestamp y) \<le> order_key (timestamp x))"
  proof (cases "xs = []")
    case True
    then show ?thesis by simp
  next
    case False
    with out obtain zs where zs: "sorted_by_timestamp xs = Inr zs" "dedup_loop f zs [] = Inr out"
      unfolding remove_duplicates_def by (cases "sorted_by_timestamp xs") auto
    from sorted_by_timestamp_props(1)[OF zs(1)] have s: "set zs = set xs" by (rule mset_eq_setD)
    from sorted_by_timestamp_props(2)[OF zs(1)]
    have "sorted (map (\<lambda>inc. order_key (timestamp inc)) ([] @ zs))" by simp
    from dedup_loop_dropped[OF zs(2), of "\<lambda>inc. order_key (timestamp inc)", OF this]
    show ?thesis unfolding s .
  qed
qed

text \<open>A at 0 s, B at 100 s and C at 50 s, B and C duplicates of A: A alone is canonical in
  every order of the input.\<close>

theorem remove_duplicates_order_independent_witness:
  "remove_duplicates no_fromisoformat
     [example_incident ''a'' 0, nearby_incident ''b'' (- 33.49951171875) 100000000,
      nearby_incident ''c'' (- 33.49951171875) 50000000] = Inr [example_incident ''a'' 0] \<and>
   remove_duplicates no_fromisoformat
     [nearby_incident ''b'' (- 33.49951171875) 100000000, nearby_incident ''c'' (- 33.49951171875) 50000000,
      example_incident ''a'' 0] = Inr [example_incident ''a'' 0] \<and>
   remove_duplicates no_fromisoformat
     [nearby_incident ''c'' (- 33.49951171875) 50000000, example_incident ''a'' 0,
      nearby_incident ''b'' (- 33.49951171875) 100000000] = Inr [example_incident ''a'' 0]"
proof -
  let ?a = "example_incident ''a'' 0"
  let ?b = "nearby_incident ''b'' (- 33.49951171875) 100000000"
  let ?c = "nearby_incident ''c'' (- 33.49951171875) 50000000"
  have d: "distinct (map (\<lambda>inc. order_key (timestamp inc)) [?a, ?b, ?c])"
    by (simp add: example_defs nearby_incident_def instant_def)
  have 0: "remove_duplicates no_fromisoformat [?a, ?b, ?c] = Inr [?a]"
    by (simp add: dedup_defs example_defs)
  have m1: "mset [?a, ?b, ?c] = mset [?b, ?c, ?a]" by (simp add: ac_simps)
  have m2: "mset [?a, ?b, ?c] = mset [?c, ?a, ?b]" by (simp add: ac_simps)
  from remove_duplicates_order_independent[OF m1 d, of no_fromisoformat] 0
  have 1: "remove_duplicates no_fromisoformat [?b, ?c, ?a] = Inr [?a]" by simp
  from remove_duplicates_order_independent[OF m2 d, of no_fromisoformat] 0
  have 2: "remove_duplicates no_fromisoformat [?c, ?a, ?b] = Inr [?a]" by simp
  from 0 1 2 show ?thesis by simp
qed

text \<open>Against C2 as stated: two reports of one event with the same timestamp; the
  canonical record is the one that comes first in the input.\<close>

theorem remove_duplicates_tie_counterexample:
  "mset [example_incident ''a'' 0, example_incident ''b'' 0] =
     mset [example_incident ''b'' 0, example_incident ''a'' 0] \<and>
   remove_duplicates no_fromisoformat [example_incident ''a'' 0, example_incident ''b'' 0] =
     Inr [example_incident ''a'' 0] \<and>
   remove_duplicates no_fromisoformat [example_incident ''b'' 0, example_incident ''a'' 0] =
     Inr [example_incident ''b'' 0] \<and>
   example_incident ''a'' 0 \<noteq> example_incident ''b'' 0"
  by (simp add: dedup_defs example_defs ac_simps)

subsection \<open>Marking records as processed\<close>

lemmas store_defs = filter_and_clean_data_def fetch_unprocessed_def order_by_timestamp_desc_def
  mark_processed_def matches_any_def two_reports_def

lemma mark_processed_eq:
  "mark_processed ids st =
     map (\<lambda>s. s\<lparr>processed := processed s \<or>
            (\<exists>i. incident_id (row s) = Val i \<and> Val i \<in> set ids)\<rparr>) st"
proof -
  have "(if matches_any ids s then s\<lparr>processed := True\<rparr> else s) =
        s\<lparr>processed := processed s \<or> (\<exists>i. incident_id (row s) = Val i \<and> Val i \<in> set ids)\<rparr>"
    for s :: stored
    by (cases "incident_id (row s)") (simp_all add: matches_any_def)
  then show ?thesis unfolding mark_processed_def by simp
qed

lemma homogenize_incident_id:
  assumes "homogenize_incident inc = Inr h"
  shows "incident_id h = incident_id inc"
  using assms unfolding homogenize_incident_def Let_def
  by (cases "incident_id inc") (auto split: sum.splits)

text \<open>
  Claim C1, as the code has it. When the validation and the deduplication of the fetched
  batch raise no exception, \<^verbatim>\<open>filter_and_clean_data\<close> deletes and changes no row and
  sets the flag \<^verbatim>\<open>processed\<close> of exactly the rows whose id is the id of a record that
  the normaliser outputs for a canonical record of the batch; every other flag is as
  before. A validated record that is dropped as a duplicate is not flagged, unless it
  shares its id with such an output.
\<close>

theorem filter_and_clean_data_marks:
  assumes "filter_valid f now (fetch_unprocessed st) = Inr valid"
    and "remove_duplicates f valid = Inr canonical"
  shows "fst (filter_and_clean_data True f now st) =
           map (\<lambda>s. s\<lparr>processed := processed s \<or>
                  (\<exists>i. incident_id (row s) = Val i \<and>
                       Val i \<in> incident_id ` set (homogenize_incidents canonical))\<rparr>) st \<and>
         (\<forall>h\<in>set (homogenize_incidents canonical). \<exists>inc\<in>set canonical.
            homogenize_incident inc = Inr h \<and> incident_id h = incident_id inc)"
proof
  let ?hs = "homogenize_incidents canonical"
  let ?mark = "\<lambda>s. s\<lparr>processed := processed s \<or>
                  (\<exists>i. incident_id (row s) = Val i \<and> Val i \<in> incident_id ` set ?hs)\<rparr>"
  have empty: "map ?mark st = st" if "?hs = []"
    using that by simp
  show "fst (filter_and_clean_data True f now st) = map ?mark st"
  proof (cases "fetch_unprocessed st = []")
    case True
    with assms have "canonical = []" by (simp add: remove_duplicates_def)
    then have "?hs = []" by simp
    from empty[OF this] True show ?thesis by (simp add: filter_and_clean_data_def Let_def)
  next
    case False
    show ?thesis
    proof (cases "?hs = []")
      case True
      from empty[OF True] False assms True show ?thesis
        by (simp add: filter_and_clean_data_def Let_def)
    next
      case nonempty: False
      with False assms show ?thesis
        by (simp add: filter_and_clean_data_def mark_processed_eq Let_def)
    qed
  qed
next
  show "\<forall>h\<in>set (homogenize_incidents canonical). \<exists>inc\<in>set canonical.
            homogenize_incident inc = Inr h \<and> incident_id h = incident_id inc"
    unfolding set_homogenize_incidents using homogenize_incident_id by blast
qed

text \<open>Two reports of one accident: after the run the earlier one is flagged, the later
  one, suppressed as its duplicate, is not.\<close>

theorem filter_and_clean_data_marks_witness:
  "fst (filter_and_clean_data True no_fromisoformat (3600 * 1000000) two_reports) =
     [\<lparr> row = example_incident ''a'' 0, processed = True \<rparr>,
      \<lparr> row = nearby_incident ''b'' (- 33.49951171875) 100000000, processed = False \<rparr>]"
proof -
  let ?a = "example_incident ''a'' 0"
  let ?b = "nearby_incident ''b'' (- 33.49951171875) 100000000"
  have f: "fetch_unprocessed two_reports = [?b, ?a]"
    by (simp add: fetch_unprocessed_def order_by_timestamp_desc_def two_reports_def example_defs
          nearby_incident_def instant_def)
  have v: "filter_valid no_fromisoformat (3600 * 1000000) (fetch_unprocessed two_reports) = Inr [?b, ?a]"
    unfolding f by (simp add: valid_defs example_defs strip_defs nearby_incident_def)
  have d: "remove_duplicates no_fromisoformat [?b, ?a] = Inr [?a]"
    by (simp add: dedup_defs example_defs)
  have h: "map incident_id (homogenize_incidents [?a]) = [Val ''a'']"
    by (simp add: homogenize_defs example_defs strip_defs)
  have "incident_id ` set (homogenize_incidents [?a]) = {Val ''a''}"
    using h by (metis list.set_map list.simps(15) set_empty2 empty_set)
  with filter_and_clean_data_marks[OF v d] show ?thesis
    by (simp add: two_reports_def example_defs nearby_incident_def)
qed

text \<open>Against C1 as stated: the later report passes validation and is fetched as
  unprocessed, and is still unprocessed after the run (which counts 2 fetched, 1
  output); the next run fetches it again, alone, and admits it as a second canonical
  record of the same accident.\<close>

theorem filter_and_clean_data_duplicate_counterexample:
  "is_valid_incident no_fromisoformat (3600 * 1000000)
      (nearby_incident ''b'' (- 33.49951171875) 100000000) = Inr True \<and>
   filter_and_clean_data True no_fromisoformat (3600 * 1000000) two_reports =
     ([\<lparr> row = example_incident ''a'' 0, processed = True \<rparr>,
       \<lparr> row = nearby_incident ''b'' (- 33.49951171875) 100000000, processed = False \<rparr>], 2, 1) \<and>
   filter_and_clean_data True no_fromisoformat (3600 * 1000000)
     [\<lparr> row = example_incident ''a'' 0, processed = True \<rparr>,
      \<lparr> row = nearby_incident ''b'' (- 33.49951171875) 100000000, processed = False \<rparr>] =
     ([\<lparr> row = example_incident ''a'' 0, processed = True \<rparr>,
       \<lparr> row = nearby_incident ''b'' (- 33.49951171875) 100000000, processed = True \<rparr>], 1, 1)"
  by (simp add: store_defs valid_defs dedup_defs homogenize_defs example_defs strip_defs)

subsection \<open>The exported CSV\<close>

text \<open>The reader inverts the writer: a line written from a non-empty list of cells reads
  back as these cells. So does a cell written by the scraper's exporter.\<close>

lemma csv_read_escaped:
  "csv_read InQuotedField field parsed (escape_quotes s @ rest) =
   csv_read InQuotedField (field @ s) parsed rest"
  by (induction s arbitrary: field) (simp_all add: escape_quotes_def)

lemma csv_read_plain:
  "CHR '','' \<notin> set s \<Longrightarrow>
   csv_read InField field parsed (s @ rest) = csv_read InField (field @ s) parsed rest"
  by (induction s arbitrary: field) auto

lemma csv_read_plain_start:
  assumes "CHR '','' \<notin> set s" and "CHR 0x22 \<notin> set s" and "s \<noteq> []"
  shows "csv_read StartField [] parsed (s @ rest) = csv_read InField s parsed rest"
proof (cases s)
  case Nil
  with assms show ?thesis by simp
next
  case (Cons c cs)
  with assms have "c \<noteq> CHR 0x22" "c \<noteq> CHR '',''" "CHR '','' \<notin> set cs"
    by auto
  with Cons csv_read_plain[of cs "[c]" parsed rest] show ?thesis by simp
qed

lemma not_needs_quoting: "\<not> needs_quoting s \<Longrightarrow> CHR '','' \<notin> set s \<and> CHR 0x22 \<notin> set s"
  by (auto simp add: needs_quoting_def list_ex_iff)

lemma csv_read_field_end:
  "csv_read StartField [] parsed (csv_field s) = parsed @ [s]"
proof (cases "needs_quoting s")
  case True
  then show ?thesis
    using csv_read_escaped[of "[]" parsed s "[CHR 0x22]"] by (simp add: csv_field_def)
next
  case False
  show ?thesis
  proof (cases "s = []")
    case True
    with False show ?thesis by (simp add: csv_field_def)
  next
    case nonempty: False
    from not_needs_quoting[OF False] csv_read_plain_start[of s parsed "[]"] nonempty False
    show ?thesis by (simp add: csv_field_def)
  qed
qed

lemma csv_read_field_comma:
  "csv_read StartField [] parsed (csv_field s @ CHR '','' # rest) =
   csv_read StartField [] (parsed @ [s]) rest"
proof (cases "needs_quoting s")
  case True
  then show ?thesis
    using csv_read_escaped[of "[]" parsed s "CHR 0x22 # CHR '','' # rest"]
    by (simp add: csv_field_def)
next
  case False
  show ?thesis
  proof (cases "s = []")
    case True
    with False show ?thesis by (simp add: csv_field_def)
  next
    case nonempty: False
    from not_needs_quoting[OF False] csv_read_plain_start[of s parsed "CHR '','' # rest"] nonempty False
    show ?thesis by (simp add: csv_field_def)
  qed
qed

lemma csv_read_line:
  "cells \<noteq> [] \<Longrightarrow> csv_read StartField [] parsed (csv_line cells) = parsed @ cells"
proof (induction cells arbitrary: parsed rule: csv_line.induct)
  case 1
  then show ?case by simp
next
  case (2 cell)
  then show ?case by (simp add: csv_read_field_end)
next
  case (3 cell c cells)
  then show ?case by (simp add: csv_read_field_comma)
qed

lemma parse_line_csv_line: "cells \<noteq> [] \<Longrightarrow> parse_line (csv_line cells) = cells"
  unfolding parse_line_def using csv_read_line[of cells "[]"] by simp

lemma escape_quotes_length:
  "length (escape_quotes s) = length s + length (filter (\<lambda>c. c = CHR 0x22) s)"
  by (induction s) (simp_all add: escape_quotes_def)

lemma escape_quotes_same: "CHR 0x22 \<notin> set s \<Longrightarrow> escape_quotes s = s"
  by (induction s) (auto simp add: escape_quotes_def)

lemma escape_quotes_id: "(escape_quotes s = s) = (CHR 0x22 \<notin> set s)"
proof
  assume "escape_quotes s = s"
  with escape_quotes_length[of s] have "filter (\<lambda>c. c = CHR 0x22) s = []" by simp
  then show "CHR 0x22 \<notin> set s" by (auto simp add: filter_empty_conv)
next
  assume "CHR 0x22 \<notin> set s"
  then show "escape_quotes s = s" by (rule escape_quotes_same)
qed

lemma set_escape_quotes: "set (escape_quotes s) = set s"
  by (induction s) (auto simp add: escape_quotes_def)

lemma scraper_field_read_back: "parse_line (scraper_field s) = [s]"
proof (cases "CHR '','' \<in> set s \<or> CHR 0x22 \<in> set s")
  case True
  then show ?thesis
    using csv_read_escaped[of "[]" "[]" s "[CHR 0x22]"]
    by (simp add: scraper_field_def parse_line_def set_escape_quotes Let_def)
next
  case False
  then have plain: "escape_quotes s = s" by (simp add: escape_quotes_same)
  show ?thesis
  proof (cases "s = []")
    case True
    with False show ?thesis
      by (simp add: scraper_field_def parse_line_def escape_quotes_def)
  next
    case nonempty: False
    from False csv_read_plain_start[of s "[]" "[]"] nonempty plain show ?thesis
      by (simp add: scraper_field_def parse_line_def set_escape_quotes Let_def)
  qed
qed

lemma export_description_read_back:
  "parse_line (csv_line (export_cells fmt inc)) ! 2 = escape_quotes (text_cell (description inc)) \<and>
   (parse_line (csv_line (export_cells fmt inc)) ! 2 = text_cell (description inc)) =
     (CHR 0x22 \<notin> set (text_cell (description inc)))"
proof -
  have "parse_line (csv_line (export_cells fmt inc)) = export_cells fmt inc"
    by (rule parse_line_csv_line) (simp add: export_cells_def)
  then have "parse_line (csv_line (export_cells fmt inc)) ! 2
      = escape_quotes (text_cell (description inc))"
    by (simp add: export_cells_def)
  then show ?thesis by (simp add: escape_quotes_id)
qed

text \<open>
  Claim C3 at the description \<^verbatim>\<open>He said, "slow down"\<close>. The exporter doubles the
  quotes itself and the CSV writer doubles them again, so the line carries four quotes for
  each one and a standard reader gets \<^verbatim>\<open>He said, ""slow down""\<close>: not the original
  description. The scraper's exporter, which escapes once, round-trips it.
\<close>

theorem export_quoted_description:
  "text_cell (description quoted_incident) =
     ''He said, '' @ [CHR 0x22] @ ''slow down'' @ [CHR 0x22] \<and>
   csv_line (export_cells plain_renderer quoted_incident) =
     ''a,accidente,'' @ [CHR 0x22] @ ''He said, '' @ [CHR 0x22, CHR 0x22, CHR 0x22, CHR 0x22] @
     ''slow down'' @ [CHR 0x22, CHR 0x22, CHR 0x22, CHR 0x22, CHR 0x22] @
     '',0.0,0.0,Alameda,Santiago,santiago,0,2025-06-01,waze'' \<and>
   parse_line (csv_line (export_cells plain_renderer quoted_incident)) ! 2 =
     ''He said, '' @ [CHR 0x22, CHR 0x22] @ ''slow down'' @ [CHR 0x22, CHR 0x22] \<and>
   parse_line (csv_line (export_cells plain_renderer quoted_incident)) ! 2 \<noteq>
     text_cell (description quoted_incident) \<and>
   parse_line (scraper_field (text_cell (description quoted_incident))) =
     [text_cell (description quoted_incident)]"
  by (simp add: parse_line_def export_cells_def csv_field_def needs_quoting_def
        escape_quotes_def quoted_incident_def plain_renderer_def example_defs
        scraper_field_def Let_def)

subsection \<open>The pipeline\<close>

lemmas pipeline_defs = process_data_pipeline_def export_for_pig_processing_def
  fetch_processed_def order_by_timestamp_desc_def run_pig_analysis_def calm_environment_def

lemma pipeline_cases:
  obtains (nodata) st1 n_total where
      "filter_and_clean_data (conn_filter env) (iso_parser env) (wall_clock env) st = (st1, n_total, 0)"
      "process_data_pipeline env st c = (st1, c, NoData)"
  | (noexport) st1 n_total n_filtered artifact where
      "filter_and_clean_data (conn_filter env) (iso_parser env) (wall_clock env) st = (st1, n_total, n_filtered)"
      "n_filtered \<noteq> 0"
      "export_for_pig_processing (conn_export env) (render env) (export_time env) st1 = ([], artifact)"
      "process_data_pipeline env st c = (st1, c, ExportFailed)"
  | (nopig) st1 n_total n_filtered csv_path artifact where
      "filter_and_clean_data (conn_filter env) (iso_parser env) (wall_clock env) st = (st1, n_total, n_filtered)"
      "n_filtered \<noteq> 0"
      "export_for_pig_processing (conn_export env) (render env) (export_time env) st1 = (csv_path, artifact)"
      "csv_path \<noteq> []"
      "process_data_pipeline env st c = (st1, c, PigFailed)"
  | (completed) st1 n_total n_filtered c1 report where
      "filter_and_clean_data (conn_filter env) (iso_parser env) (wall_clock env) st = (st1, n_total, n_filtered)"
      "n_filtered \<noteq> 0"
      "c1 = cache_analysis_results (result_files env) (cache_time env) c"
      "report = generate_processing_report (conn_report env) (report_time env)
                 \<lparr> total_records = n_total, filtered_records = n_filtered,
                   processing_time = elapsed env, errors_count = 0,
                   metrics_timestamp = wall_clock env \<rparr> st1 c1"
      "process_data_pipeline env st c =
         (st1, setex (report_time env) ''processing:last_report'' 3600 (Report report) c1, Completed)"
proof -
  obtain st1 n_total n_filtered where f:
    "filter_and_clean_data (conn_filter env) (iso_parser env) (wall_clock env) st = (st1, n_total, n_filtered)"
    by (metis prod_cases3)
  obtain csv_path artifact where e:
    "export_for_pig_processing (conn_export env) (render env) (export_time env) st1 = (csv_path, artifact)"
    by (metis surj_pair)
  show ?thesis
  proof (cases "n_filtered = 0")
    case True
    with f nodata show ?thesis by (simp add: process_data_pipeline_def)
  next
    case False
    show ?thesis
    proof (cases "csv_path = []")
      case True
      with f e False noexport show ?thesis by (simp add: process_data_pipeline_def)
    next
      case path: False
      show ?thesis
      proof (cases "run_pig_analysis env csv_path (artifact \<noteq> None)")
        case False
        with f e \<open>n_filtered \<noteq> 0\<close> path nopig show ?thesis
          by (simp add: process_data_pipeline_def)
      next
        case True
        with f e \<open>n_filtered \<noteq> 0\<close> path completed show ?thesis
          by (simp add: process_data_pipeline_def Let_def)
      qed
    qed
  qed
qed

lemma export_without_rows:
  "fetch_processed st = [] \<Longrightarrow> export_for_pig_processing conn fmt t st = ([], None)"
  by (simp add: export_for_pig_processing_def)

lemma order_by_timestamp_desc_set: "set (order_by_timestamp_desc incs) = set incs"
  by (simp add: order_by_timestamp_desc_def)

lemma filter_valid_valid:
  "filter_valid f now incs = Inr out \<Longrightarrow>
   set out \<subseteq> {inc \<in> set incs. is_valid_incident f now inc = Inr True}"
proof (induction incs arbitrary: out)
  case Nil
  then show ?case by simp
next
  case (Cons inc incs)
  from Cons.prems obtain ok rest where
    s: "is_valid_incident f now inc = Inr ok" "filter_valid f now incs = Inr rest"
       "out = (if ok then inc # rest else rest)"
    by (auto split: sum.splits)
  from Cons.IH[OF s(2)] s(1,3) show ?case by auto
qed

lemma remove_duplicates_subset:
  assumes "remove_duplicates f xs = Inr out"
  shows "set out \<subseteq> set xs"
proof (cases "xs = []")
  case True
  with assms show ?thesis by (simp add: remove_duplicates_def)
next
  case False
  with assms obtain zs where zs: "sorted_by_timestamp xs = Inr zs" "dedup_loop f zs [] = Inr out"
    unfolding remove_duplicates_def by (cases "sorted_by_timestamp xs") auto
  from sorted_by_timestamp_props(1)[OF zs(1)] have "set zs = set xs" by (rule mset_eq_setD)
  with dedup_loop_sets[OF zs(2)] show ?thesis by simp
qed

text \<open>A run of \<^verbatim>\<open>filter_and_clean_data\<close> that outputs a record flags a row: the output
  has the id of a validated row of the batch, and the \<^verbatim>\<open>UPDATE\<close> matches that row.\<close>

lemma filtered_leaves_processed:
  assumes run: "filter_and_clean_data conn f now st = (st1, n_total, n_filtered)"
    and n: "n_filtered \<noteq> 0"
  shows "fetch_processed st1 \<noteq> []"
proof -
  from run n have conn: conn by (cases conn) (simp_all add: filter_and_clean_data_def)
  from run n conn have raw: "fetch_unprocessed st \<noteq> []"
    by (cases "fetch_unprocessed st = []") (simp_all add: filter_and_clean_data_def Let_def)
  from run n conn raw obtain valid where
    valid: "filter_valid f now (fetch_unprocessed st) = Inr valid"
    by (cases "filter_valid f now (fetch_unprocessed st)")
       (auto simp add: filter_and_clean_data_def Let_def)
  from run n conn raw valid obtain canonical where
    canonical: "remove_duplicates f valid = Inr canonical"
    by (cases "remove_duplicates f valid") (auto simp add: filter_and_clean_data_def Let_def)
  let ?hs = "homogenize_incidents canonical"
  from run conn raw valid canonical have len: "n_filtered = length ?hs"
    and st1: "st1 = (if map incident_id ?hs \<noteq> [] then mark_processed (map incident_id ?hs) st
                     else st)"
    by (simp_all add: filter_and_clean_data_def Let_def)
  from len n have "?hs \<noteq> []" by auto
  then obtain h where h: "h \<in> set ?hs" by (cases ?hs) auto
  then obtain inc where inc: "inc \<in> set canonical" "homogenize_incident inc = Inr h"
    unfolding set_homogenize_incidents by blast
  from remove_duplicates_subset[OF canonical] inc(1) have "inc \<in> set valid" by blast
  with filter_valid_valid[OF valid] have fetched: "inc \<in> set (fetch_unprocessed st)"
    and ok: "is_valid_incident f now inc = Inr True"
    by auto
  from fetched obtain s where s: "s \<in> set st" "row s = inc"
    by (auto simp add: fetch_unprocessed_def order_by_timestamp_desc_set)
  from valid_fields[OF ok] obtain i where i: "incident_id inc = Val i" by blast
  from homogenize_incident_id[OF inc(2)] i h have "Val i \<in> set (map incident_id ?hs)"
    by force
  with s(2) i have m: "matches_any (map incident_id ?hs) s" by (simp add: matches_any_def)
  from \<open>?hs \<noteq> []\<close> st1 have "st1 = mark_processed (map incident_id ?hs) st" by simp
  with s(1) m have "s\<lparr>processed := True\<rparr> \<in> set st1"
    by (force simp add: mark_processed_def)
  moreover have "processed (s\<lparr>processed := True\<rparr>)" by simp
  ultimately have "\<exists>x\<in>set st1. processed x" by (rule bexI[rotated])
  then have "filter processed st1 \<noteq> []" by (simp add: filter_empty_conv)
  then have "map row (filter processed st1) \<noteq> []" by simp
  with order_by_timestamp_desc_set[of "map row (filter processed st1)"]
  have "order_by_timestamp_desc (map row (filter processed st1)) \<noteq> []"
    by (metis set_empty)
  then show ?thesis by (simp add: fetch_processed_def)
qed

text \<open>
  Claim C8, as the code has it. With no processed row to export,
  \<^verbatim>\<open>export_for_pig_processing\<close> returns the empty path and writes no file. Every run of
  \<^verbatim>\<open>process_data_pipeline\<close> that ends early (no data, failed export, failed analysis)
  leaves the cache as it was: no report is stored under \<^verbatim>\<open>processing:last_report\<close>, not
  even an empty one. A run after whose filter stage the store holds no processed row
  ends at \<^verbatim>\<open>"No data to process"\<close>, logged at the info level, before the exporter is
  called: it is not treated as a failure. The run ends at
  \<^verbatim>\<open>"Failed to export data for Pig processing"\<close> only when the exporter gets no
  connection to the store.
\<close>

theorem early_end_writes_no_report:
  "(fetch_processed st = [] \<longrightarrow> export_for_pig_processing conn fmt t st = ([], None)) \<and>
   (snd (snd (process_data_pipeline env st c)) \<noteq> Completed \<longrightarrow>
      fst (snd (process_data_pipeline env st c)) = c) \<and>
   (fetch_processed (fst (process_data_pipeline env st c)) = [] \<longrightarrow>
      snd (snd (process_data_pipeline env st c)) = NoData \<and>
      outcome_level (snd (snd (process_data_pipeline env st c))) = INFO) \<and>
   (snd (snd (process_data_pipeline env st c)) = ExportFailed \<longrightarrow> \<not> conn_export env)"
proof (intro conjI impI)
  assume "fetch_processed st = []"
  then show "export_for_pig_processing conn fmt t st = ([], None)"
    by (rule export_without_rows)
next
  assume "snd (snd (process_data_pipeline env st c)) \<noteq> Completed"
  then show "fst (snd (process_data_pipeline env st c)) = c"
    by (cases rule: pipeline_cases[of env st c]) simp_all
next
  assume empty: "fetch_processed (fst (process_data_pipeline env st c)) = []"
  show no_data: "snd (snd (process_data_pipeline env st c)) = NoData"
  proof (cases rule: pipeline_cases[of env st c])
    case (nodata st1 n_total)
    then show ?thesis by simp
  next
    case (noexport st1 n_total n_filtered artifact)
    from filtered_leaves_processed[OF noexport(1,2)] noexport(4) empty show ?thesis by simp
  next
    case (nopig st1 n_total n_filtered csv_path artifact)
    from filtered_leaves_processed[OF nopig(1,2)] nopig(5) empty show ?thesis by simp
  next
    case (completed st1 n_total n_filtered c1 report)
    from filtered_leaves_processed[OF completed(1,2)] completed(5) empty show ?thesis by simp
  qed
  then show "outcome_level (snd (snd (process_data_pipeline env st c))) = INFO" by simp
next
  assume failed: "snd (snd (process_data_pipeline env st c)) = ExportFailed"
  show "\<not> conn_export env"
  proof (cases rule: pipeline_cases[of env st c])
    case (nodata st1 n_total)
    with failed show ?thesis by simp
  next
    case (noexport st1 n_total n_filtered artifact)
    from filtered_leaves_processed[OF noexport(1,2)] noexport(3) show ?thesis
      by (auto simp add: export_for_pig_processing_def Let_def split: if_splits)
  next
    case (nopig st1 n_total n_filtered csv_path artifact)
    with failed show ?thesis by simp
  next
    case (completed st1 n_total n_filtered c1 report)
    with failed show ?thesis by simp
  qed
qed

text \<open>The run on the empty store: nothing to export, the run ends at
  \<^verbatim>\<open>"No data to process"\<close> and the cache stays empty. The run on two reports with no
  connection for the exporter ends at the failed export.\<close>

theorem early_end_writes_no_report_witness:
  "export_for_pig_processing True plain_renderer 3600 [] = ([], None) \<and>
   process_data_pipeline calm_environment [] empty_cache = ([], empty_cache, NoData) \<and>
   outcome_level (snd (snd (process_data_pipeline calm_environment [] empty_cache))) = INFO \<and>
   last_report 3701 (fst (snd (process_data_pipeline calm_environment [] empty_cache))) = None \<and>
   snd (snd (process_data_pipeline (calm_environment\<lparr> conn_export := False \<rparr>) two_reports
     empty_cache)) = ExportFailed \<and>
   conn_export (calm_environment\<lparr> conn_export := False \<rparr>) = False"
proof -
  have f: "fetch_processed [] = []"
    by (simp add: fetch_processed_def order_by_timestamp_desc_def)
  have o: "process_data_pipeline calm_environment [] empty_cache = ([], empty_cache, NoData)"
    by (simp add: pipeline_defs store_defs)
  note t = early_end_writes_no_report[of "[]" True plain_renderer 3600 calm_environment empty_cache]
  from t f have 1: "export_for_pig_processing True plain_renderer 3600 [] = ([], None)"
    by (elim conjE) (rule mp)
  from t o have 2: "fst (snd (process_data_pipeline calm_environment [] empty_cache)) = empty_cache"
    by simp
  from t o f have 3:
    "outcome_level (snd (snd (process_data_pipeline calm_environment [] empty_cache))) = INFO"
    by simp
  have 4: "last_report 3701 empty_cache = None"
    by (simp add: last_report_def cache_get_def empty_cache_def)
  have 5: "snd (snd (process_data_pipeline (calm_environment\<lparr> conn_export := False \<rparr>) two_reports
     empty_cache)) = ExportFailed"
    by (simp add: pipeline_defs store_defs valid_defs dedup_defs homogenize_defs example_defs
          strip_defs Let_def)
  from early_end_writes_no_report[of two_reports True plain_renderer 3600
      "calm_environment\<lparr> conn_export := False \<rparr>" empty_cache] 5
  have 6: "conn_export (calm_environment\<lparr> conn_export := False \<rparr>) = False" by simp
  from 1 2 3 4 5 6 o show ?thesis by simp
qed

text \<open>Against C8 as stated: the store holds one record, which validation rejects, so no
  processed row is available for export; the run ends early and the API finds no report
  under \<^verbatim>\<open>processing:last_report\<close>.\<close>

theorem no_report_counterexample:
  "fetch_processed short_report = [] \<and>
   export_for_pig_processing True plain_renderer 3600 short_report = ([], None) \<and>
   process_data_pipeline calm_environment short_report empty_cache =
     (short_report, empty_cache, NoData) \<and>
   last_report 3701 empty_cache = None"
  by (simp add: pipeline_defs store_defs valid_defs dedup_defs homogenize_defs example_defs
        strip_defs Let_def short_report_def last_report_def cache_get_def empty_cache_def)

subsection \<open>The cache entries\<close>

lemma cache_outputs_entry:
  "cache_outputs files now kvs c k = c k \<or>
   (\<exists>e. cache_outputs files now kvs c k = Some e \<and> expires_at e = now + 3600)"
proof (induction kvs arbitrary: c)
  case Nil
  then show ?case by simp
next
  case (Cons kv kvs)
  obtain name path where kv: "kv = (name, path)" by (cases kv)
  let ?c = "case files path of None \<Rightarrow> c
            | Some content \<Rightarrow> setex now (''analysis:'' @ name) 3600 (Text content) c"
  have step: "?c k = c k \<or> (\<exists>e. ?c k = Some e \<and> expires_at e = now + 3600)"
    by (cases "files path") (simp_all add: setex_def)
  from Cons.IH[of ?c] step show ?case unfolding kv by auto
qed

lemma cache_outputs_other:
  "k \<notin> (\<lambda>(name, path). ''analysis:'' @ name) ` set kvs \<Longrightarrow>
   cache_outputs files now kvs c k = c k"
proof (induction kvs arbitrary: c)
  case Nil
  then show ?case by simp
next
  case (Cons kv kvs)
  obtain name path where kv: "kv = (name, path)" by (cases kv)
  from Cons.prems kv have k: "k \<noteq> ''analysis:'' @ name"
    and rest: "k \<notin> (\<lambda>(name, path). ''analysis:'' @ name) ` set kvs" by auto
  from Cons.IH[OF rest] k show ?case unfolding kv
    by (cases "files path") (simp_all add: setex_def)
qed

lemma cache_outputs_written:
  assumes "(name, path) \<in> set kvs" and "files path = Some content"
    and "distinct (map fst kvs)"
  shows "cache_outputs files now kvs c (''analysis:'' @ name) =
           Some \<lparr> payload_of = Text content, expires_at = now + 3600 \<rparr>"
  using assms
proof (induction kvs arbitrary: c)
  case Nil
  then show ?case by simp
next
  case (Cons kv kvs)
  obtain name' path' where kv: "kv = (name', path')" by (cases kv)
  show ?case
  proof (cases "(name, path) \<in> set kvs")
    case True
    from Cons.prems(3) have "distinct (map fst kvs)" by simp
    from Cons.IH[OF True Cons.prems(2) this] show ?thesis unfolding kv by simp
  next
    case False
    with Cons.prems(1) kv have same: "name' = name" "path' = path" by auto
    from Cons.prems(3) kv same have "name \<notin> fst ` set kvs" by simp
    then have "''analysis:'' @ name \<notin> (\<lambda>(name, path). ''analysis:'' @ name) ` set kvs"
      by force
    from cache_outputs_other[OF this] Cons.prems(2) show ?thesis
      unfolding kv same by (simp add: setex_def)
  qed
qed

lemma cache_get_expired:
  "c k = Some e \<Longrightarrow> expires_at e \<le> now \<Longrightarrow> cache_get now k c = None"
  by (simp add: cache_get_def)

lemma two_reports_completed:
  "snd (snd (process_data_pipeline calm_environment two_reports empty_cache)) = Completed"
  by (simp add: pipeline_defs store_defs valid_defs dedup_defs homogenize_defs example_defs
        strip_defs Let_def)

text \<open>
  Claim C9. After a completed run every key of the cache either is as it was before the
  run or expires 3600 s after the moment it was written; the content of each result file
  of the engine that exists is stored verbatim under \<^verbatim>\<open>analysis:<name>\<close> with that
  expiry, and so are \<^verbatim>\<open>analysis:last_update\<close> and \<^verbatim>\<open>processing:last_report\<close>. A read of
  an entry at or after its expiry returns nothing, as the read of an absent key does.
\<close>

theorem cache_entries_expire:
  assumes "process_data_pipeline env st c = (st', c', Completed)"
  shows "(\<forall>k. c' k = c k \<or>
            (\<exists>e. c' k = Some e \<and> (expires_at e = cache_time env + 3600 \<or>
                                    expires_at e = report_time env + 3600))) \<and>
         (\<forall>name path content. (name, path) \<in> set output_files \<longrightarrow>
            result_files env path = Some content \<longrightarrow>
            c' (''analysis:'' @ name) =
              Some \<lparr> payload_of = Text content, expires_at = cache_time env + 3600 \<rparr>) \<and>
         (\<exists>e. c' ''analysis:last_update'' = Some e \<and> expires_at e = cache_time env + 3600) \<and>
         (\<exists>e. c' ''processing:last_report'' = Some e \<and> expires_at e = report_time env + 3600) \<and>
         (\<forall>k e now. c' k = Some e \<longrightarrow> expires_at e \<le> now \<longrightarrow> cache_get now k c' = None)"
proof (cases rule: pipeline_cases[of env st c])
  case (nodata st1 n_total)
  with assms show ?thesis by simp
next
  case (noexport st1 n_total n_filtered artifact)
  with assms show ?thesis by simp
next
  case (nopig st1 n_total n_filtered csv_path artifact)
  with assms show ?thesis by simp
next
  case (completed st1 n_total n_filtered c1 report)
  let ?o = "cache_outputs (result_files env) (cache_time env) output_files c"
  from completed(3) have c1: "c1 = setex (cache_time env) ''analysis:last_update'' 3600
      (Stamp (cache_time env)) ?o"
    by (simp add: cache_analysis_results_def)
  from assms completed(5) have c': "c' = setex (report_time env) ''processing:last_report'' 3600
      (Report report) c1" by simp
  have 1: "c' k = c k \<or> (\<exists>e. c' k = Some e \<and> (expires_at e = cache_time env + 3600 \<or>
                                    expires_at e = report_time env + 3600))" for k
    using cache_outputs_entry[of "result_files env" "cache_time env" output_files c k]
    unfolding c' c1 by (auto simp add: setex_def)
  have 2: "c' (''analysis:'' @ name) =
              Some \<lparr> payload_of = Text content, expires_at = cache_time env + 3600 \<rparr>"
    if "(name, path) \<in> set output_files" "result_files env path = Some content"
    for name path content
  proof -
    have d: "distinct (map fst output_files)" by (simp add: output_files_def)
    from that(1) have "name \<in> {''comuna_counts'', ''type_counts'', ''hourly_counts'', ''hotspots''}"
      by (auto simp add: output_files_def)
    then have n: "''analysis:'' @ name \<noteq> ''analysis:last_update''"
      "''analysis:'' @ name \<noteq> ''processing:last_report''" by auto
    from cache_outputs_written[where files="result_files env" and kvs=output_files
        and now="cache_time env" and c=c, OF that d] n show ?thesis
      unfolding c' c1 by (simp add: setex_def)
  qed
  have 3: "\<exists>e. c' ''analysis:last_update'' = Some e \<and> expires_at e = cache_time env + 3600"
    unfolding c' c1 by (simp add: setex_def)
  have 4: "\<exists>e. c' ''processing:last_report'' = Some e \<and> expires_at e = report_time env + 3600"
    unfolding c' by (simp add: setex_def)
  from 1 2 3 4 cache_get_expired show ?thesis by blast
qed

text \<open>The run on two reports, cached at 3700 s and reported at 3701 s: the counts by type
  are served one second before 7300 s and not at 7300 s, and the report is not served at
  7301 s.\<close>

theorem cache_entries_expire_witness:
  "cache_get 7299 ''analysis:type_counts''
     (fst (snd (process_data_pipeline calm_environment two_reports empty_cache))) =
     Some (Text ''ACCIDENTE 1'') \<and>
   cache_get 7300 ''analysis:type_counts''
     (fst (snd (process_data_pipeline calm_environment two_reports empty_cache))) = None \<and>
   cache_get 7300 ''analysis:last_update''
     (fst (snd (process_data_pipeline calm_environment two_reports empty_cache))) = None \<and>
   cache_get 7301 ''processing:last_report''
     (fst (snd (process_data_pipeline calm_environment two_reports empty_cache))) = None \<and>
   cache_get 7301 ''analysis:comuna_counts''
     (fst (snd (process_data_pipeline calm_environment two_reports empty_cache))) = None"
proof -
  obtain st' c' where p:
    "process_data_pipeline calm_environment two_reports empty_cache = (st', c', Completed)"
    using two_reports_completed by (metis prod.collapse)
  note t = cache_entries_expire[OF p]
  have pth: "(''type_counts'', ''/output/incidents_by_type/part-r-00000'') \<in> set output_files"
    by (simp add: output_files_def)
  have cnt: "result_files calm_environment ''/output/incidents_by_type/part-r-00000''
               = Some ''ACCIDENTE 1''"
    by (simp add: calm_environment_def)
  from t pth cnt have 1: "c' (''analysis:'' @ ''type_counts'') =
      Some \<lparr> payload_of = Text ''ACCIDENTE 1'', expires_at = cache_time calm_environment + 3600 \<rparr>"
    by blast
  from t obtain e2 where 2: "c' ''analysis:last_update'' = Some e2"
    "expires_at e2 = cache_time calm_environment + 3600" by blast
  from t obtain e3 where 3: "c' ''processing:last_report'' = Some e3"
    "expires_at e3 = report_time calm_environment + 3600" by blast
  from t have "c' ''analysis:comuna_counts'' = empty_cache ''analysis:comuna_counts'' \<or>
     (\<exists>e. c' ''analysis:comuna_counts'' = Some e \<and>
        (expires_at e = cache_time calm_environment + 3600 \<or>
         expires_at e = report_time calm_environment + 3600))" by blast
  then have 4: "cache_get 7301 ''analysis:comuna_counts'' c' = None"
    by (auto simp add: cache_get_def empty_cache_def calm_environment_def)
  from 1 2 3 4 p show ?thesis
    by (simp add: cache_get_def calm_environment_def)
qed

subsection \<open>The report of a run\<close>

lemma report_without_street_completed:
  "snd (snd (process_data_pipeline calm_environment report_without_street empty_cache)) = Completed \<and>
   snd (filter_and_clean_data True no_fromisoformat (3600 * 1000000) report_without_street) = (2, 1)"
  by (simp add: pipeline_defs store_defs valid_defs dedup_defs homogenize_defs example_defs
        strip_defs Let_def report_without_street_def)

text \<open>
  Claim C10. The report stored by a completed run has \<^verbatim>\<open>errors_count\<close> 0, and its two
  counts are those returned by \<^verbatim>\<open>filter_and_clean_data\<close>: the records fetched and the
  records the normaliser output. A record dropped by the normaliser because its
  normalisation raised appears in no field of the report.
\<close>

theorem report_errors_count:
  assumes "process_data_pipeline env st c = (st', c', Completed)"
  shows "\<exists>r. last_report (report_time env) c' = Some r \<and>
             errors_count (processing_metrics r) = 0 \<and>
             (total_records (processing_metrics r), filtered_records (processing_metrics r)) =
               snd (filter_and_clean_data (conn_filter env) (iso_parser env) (wall_clock env) st)"
proof (cases rule: pipeline_cases[of env st c])
  case (nodata st1 n_total)
  with assms show ?thesis by simp
next
  case (noexport st1 n_total n_filtered artifact)
  with assms show ?thesis by simp
next
  case (nopig st1 n_total n_filtered csv_path artifact)
  with assms show ?thesis by simp
next
  case (completed st1 n_total n_filtered c1 report)
  from assms completed(5) have c': "c' = setex (report_time env) ''processing:last_report'' 3600
      (Report report) c1" by simp
  have "last_report (report_time env) c' = Some report"
    unfolding c' by (simp add: last_report_def cache_get_def setex_def)
  moreover have "errors_count (processing_metrics report) = 0"
    unfolding completed(4) by (simp add: generate_processing_report_def)
  moreover have "(total_records (processing_metrics report),
                  filtered_records (processing_metrics report)) =
     snd (filter_and_clean_data (conn_filter env) (iso_parser env) (wall_clock env) st)"
    unfolding completed(4) completed(1) by (simp add: generate_processing_report_def)
  ultimately show ?thesis by blast
qed

text \<open>The run on two valid records, the second with its street bound to \<^verbatim>\<open>None\<close>:
  its normalisation raises \<^verbatim>\<open>AttributeError\<close>, the normaliser drops it, and the report
  says 2 records fetched, 1 output, 0 errors.\<close>

theorem report_errors_count_witness:
  "homogenize_incident ((example_incident ''x'' 1000)\<lparr> street := PyNone \<rparr>) = Inl AttributeError \<and>
   map_option (\<lambda>r. (total_records (processing_metrics r),
                    filtered_records (processing_metrics r),
                    errors_count (processing_metrics r)))
     (last_report 3701
        (fst (snd (process_data_pipeline calm_environment report_without_street empty_cache))))
     = Some (2, 1, 0)"
proof -
  obtain st' c' where p:
    "process_data_pipeline calm_environment report_without_street empty_cache = (st', c', Completed)"
    using report_without_street_completed by (metis prod.collapse)
  from report_errors_count[OF p] obtain r where r:
    "last_report (report_time calm_environment) c' = Some r"
    "errors_count (processing_metrics r) = 0"
    "(total_records (processing_metrics r), filtered_records (processing_metrics r)) =
       snd (filter_and_clean_data (conn_filter calm_environment) (iso_parser calm_environment)
              (wall_clock calm_environment) report_without_street)"
    by blast
  from r(3) report_without_street_completed have
    "total_records (processing_metrics r) = 2" "filtered_records (processing_metrics r) = 1"
    by (simp_all add: calm_environment_def)
  moreover have "homogenize_incident ((example_incident ''x'' 1000)\<lparr> street := PyNone \<rparr>)
      = Inl AttributeError"
    by (simp add: homogenize_defs example_defs strip_defs)
  moreover from r(1) have "last_report 3701 c' = Some r" by (simp add: calm_environment_def)
  ultimately show ?thesis using r(2) p by simp
qed

end
